theory Spec2Isabelle
  imports Complex_Main "HOL-Library.AList"
begin

section \<open>Key codes\<close>

text \<open>
  Key codes are the constants of the uinput library (the Linux input event codes). The
  source only compares them, stores them in sets and dictionaries, and hands them to the
  device; the model writes them as natural numbers with their Linux values.
\<close>

type_synonym key = nat

definition KEY_LEFTCTRL :: key where "KEY_LEFTCTRL = 29"
definition KEY_LEFTSHIFT :: key where "KEY_LEFTSHIFT = 42"
definition KEY_RIGHTSHIFT :: key where "KEY_RIGHTSHIFT = 54"
definition KEY_LEFTALT :: key where "KEY_LEFTALT = 56"
definition KEY_SPACE :: key where "KEY_SPACE = 57"
definition KEY_CAPSLOCK :: key where "KEY_CAPSLOCK = 58"
definition KEY_RIGHTCTRL :: key where "KEY_RIGHTCTRL = 97"
definition KEY_RIGHTALT :: key where "KEY_RIGHTALT = 100"
definition KEY_UP :: key where "KEY_UP = 103"
definition KEY_LEFT :: key where "KEY_LEFT = 105"
definition KEY_RIGHT :: key where "KEY_RIGHT = 106"
definition KEY_DOWN :: key where "KEY_DOWN = 108"
definition KEY_LEFTMETA :: key where "KEY_LEFTMETA = 125"
definition KEY_RIGHTMETA :: key where "KEY_RIGHTMETA = 126"
definition KEY_A :: key where "KEY_A = 30"
definition KEY_S :: key where "KEY_S = 31"

lemmas key_defs =
  KEY_LEFTCTRL_def KEY_LEFTSHIFT_def KEY_RIGHTSHIFT_def KEY_LEFTALT_def KEY_SPACE_def
  KEY_CAPSLOCK_def KEY_RIGHTCTRL_def KEY_RIGHTALT_def KEY_UP_def KEY_LEFT_def
  KEY_RIGHT_def KEY_DOWN_def KEY_LEFTMETA_def KEY_RIGHTMETA_def KEY_A_def KEY_S_def

text \<open>
  \<open>MODIFIER_KEYS\<close> and \<open>SHIFT_KEYS\<close> are Python sets. The source tests membership and
  iterates over them; the lists below fix one iteration order (the order of the source
  text). The statements proved later speak about single keys and do not depend on it.
\<close>

definition MODIFIER_KEYS :: "key list" where
  "MODIFIER_KEYS =
     [KEY_LEFTSHIFT, KEY_RIGHTSHIFT, KEY_LEFTCTRL, KEY_RIGHTCTRL,
      KEY_LEFTALT, KEY_RIGHTALT, KEY_LEFTMETA, KEY_RIGHTMETA]"

definition SHIFT_KEYS :: "key list" where
  "SHIFT_KEYS = [KEY_LEFTSHIFT, KEY_RIGHTSHIFT]"

section \<open>State records\<close>

record RepeatState =
  delay_source :: "nat option"
  repeat_source :: "nat option"

record ModifierState =
  pressed :: bool
  latched :: bool
  used_in_combo :: bool

record TouchState =
  key_code :: key
  press_time :: real

record SpaceTrackingState =
  cursor_mode :: bool
  accum_x :: real
  accum_y :: real
  last_x :: real
  last_y :: real
  last_motion_at :: real
  long_press_source :: "nat option"

definition RepeatState0 :: RepeatState where
  "RepeatState0 = \<lparr>delay_source = None, repeat_source = None\<rparr>"

definition ModifierState0 :: ModifierState where
  "ModifierState0 = \<lparr>pressed = False, latched = False, used_in_combo = False\<rparr>"

definition SpaceTrackingState0 :: SpaceTrackingState where
  "SpaceTrackingState0 =
     \<lparr>cursor_mode = False, accum_x = 0, accum_y = 0, last_x = 0, last_y = 0,
      last_motion_at = 0, long_press_source = None\<rparr>"

section \<open>KeyboardEngine\<close>

text \<open>
  The uinput device is write-only: \<open>emitted\<close> is the list of \<open>device.emit(key_code, value)\<close>
  calls in the order they were made (value 1 is a press, 0 a release).
\<close>

record KeyboardEngine =
  emitted :: "(key \<times> nat) list"
  down_keys :: "key set"

definition set_key_state :: "KeyboardEngine \<Rightarrow> key \<Rightarrow> bool \<Rightarrow> KeyboardEngine" where
  "set_key_state e k p =
     (let is_down = (k \<in> down_keys e) in
      if p \<and> \<not> is_down then
        e\<lparr>emitted := emitted e @ [(k, 1)], down_keys := insert k (down_keys e)\<rparr>
      else if \<not> p \<and> is_down then
        e\<lparr>emitted := emitted e @ [(k, 0)], down_keys := down_keys e - {k}\<rparr>
      else e)"

definition tap_key :: "KeyboardEngine \<Rightarrow> key \<Rightarrow> KeyboardEngine" where
  "tap_key e k = e\<lparr>emitted := emitted e @ [(k, 1), (k, 0)]\<rparr>"

section \<open>GLib timeouts\<close>

text \<open>
  \<open>GLib.timeout_add(interval, callback, args)\<close> registers a source and returns its id (a
  fresh positive number); \<open>GLib.source_remove(id)\<close> destroys it. A source whose callback
  returns False is destroyed by the main loop, one whose callback returns True stays
  scheduled. The callbacks are the bound methods the source passes, with their arguments.
\<close>

type_synonym touch_id = int

datatype callback =
    Repeat_delay_done touch_id key
  | Repeat_tick touch_id key
  | Enter_space_cursor_mode touch_id
  | Flash_clear key

record 'cb GLib =
  sources :: "(nat \<times> int \<times> 'cb) list"
  next_source_id :: nat

definition timeout_add :: "'cb GLib \<Rightarrow> int \<Rightarrow> 'cb \<Rightarrow> nat \<times> 'cb GLib" where
  "timeout_add g interval cb =
     (next_source_id g,
      g\<lparr>sources := AList.update (next_source_id g) (interval, cb) (sources g),
        next_source_id := Suc (next_source_id g)\<rparr>)"

definition source_remove :: "'cb GLib \<Rightarrow> nat \<Rightarrow> 'cb GLib" where
  "source_remove g i = g\<lparr>sources := AList.delete i (sources g)\<rparr>"

section \<open>QingBoard: the window's state\<close>

text \<open>
  Gdk.Rectangle has integer fields x, y, width, height.
\<close>

record Rectangle =
  rect_x :: int
  rect_y :: int
  rect_width :: int
  rect_height :: int

text \<open>
  The dictionaries keyed by touch point are association lists in insertion order, read
  with \<open>map_of\<close>. \<open>modifiers\<close> always has exactly the keys of \<open>MODIFIER_KEYS\<close> and is only
  indexed by them, so it is a function read at those keys. \<open>key_press_count\<close> is only
  read through \<open>.get(key_code, 0)\<close> or right after a write, so it is a function with
  value 0 where the dictionary has no entry. A widget is named by the key it was built
  for: \<open>key_widgets\<close> and \<open>modifier_labels\<close> are the key sets of the two widget
  dictionaries, \<open>pressed_class\<close> the keys whose widget carries the style class "pressed",
  \<open>cursor_mode_class\<close> whether the Space widget carries "cursor-mode" (and its arrow
  label), \<open>symbols_shown\<close> whether the symbol keys show their shifted labels.
\<close>

record QingBoard =
  touch_states :: "(touch_id \<times> TouchState) list"
  key_rects :: "(key \<times> Rectangle) list"
  key_widgets :: "key set"
  space_tracking :: "(touch_id \<times> SpaceTrackingState) list"
  repeat_states :: "(touch_id \<times> RepeatState) list"
  key_press_count :: "key \<Rightarrow> int"
  engine :: KeyboardEngine
  modifiers :: "key \<Rightarrow> ModifierState"
  modifier_labels :: "key set"
  last_shift_tap_at :: real
  double_shift_timeout_ms :: int
  double_shift_shortcut_enabled :: bool
  double_shift_shortcut :: "key list"
  capslock_on :: bool
  space_long_press_ms :: int
  glib :: "callback GLib"
  pressed_class :: "key set"
  cursor_mode_class :: bool
  symbols_shown :: bool
  caps_indicator :: bool

section \<open>QingBoard: visual feedback\<close>

definition update_visual :: "QingBoard \<Rightarrow> key \<Rightarrow> bool \<Rightarrow> QingBoard" where
  "update_visual s k p =
     (if k \<in> key_widgets s then
        (if p then s\<lparr>pressed_class := insert k (pressed_class s)\<rparr>
         else s\<lparr>pressed_class := pressed_class s - {k}\<rparr>)
      else s)"

definition flash_regular_key :: "QingBoard \<Rightarrow> key \<Rightarrow> QingBoard" where
  "flash_regular_key s k =
     (let s1 = update_visual s k True;
          (i, g) = timeout_add (glib s1) 110 (Flash_clear k)
      in s1\<lparr>glib := g\<rparr>)"

definition paint_modifier :: "QingBoard \<Rightarrow> key \<Rightarrow> bool \<Rightarrow> QingBoard" where
  "paint_modifier s k active =
     (if k \<in> modifier_labels s then
        (if active then s\<lparr>pressed_class := insert k (pressed_class s)\<rparr>
         else s\<lparr>pressed_class := pressed_class s - {k}\<rparr>)
      else s)"

definition update_shift_labels :: "QingBoard \<Rightarrow> QingBoard" where
  "update_shift_labels s =
     s\<lparr>symbols_shown :=
         list_ex (\<lambda>k. pressed (modifiers s k) \<or> latched (modifiers s k)) SHIFT_KEYS\<rparr>"

definition set_space_cursor_visual :: "QingBoard \<Rightarrow> touch_id \<Rightarrow> bool \<Rightarrow> QingBoard" where
  "set_space_cursor_visual s touch active =
     (if KEY_SPACE \<notin> key_widgets s then s else s\<lparr>cursor_mode_class := active\<rparr>)"

definition update_caps_indicator :: "QingBoard \<Rightarrow> QingBoard" where
  "update_caps_indicator s = s\<lparr>caps_indicator := capslock_on s\<rparr>"

section \<open>QingBoard: modifier key logic\<close>

definition force_release_modifier :: "QingBoard \<Rightarrow> key \<Rightarrow> QingBoard" where
  "force_release_modifier s k =
     paint_modifier
       (s\<lparr>modifiers := (modifiers s)
             (k := (modifiers s k)\<lparr>pressed := False, latched := False, used_in_combo := False\<rparr>),
          engine := set_key_state (engine s) k False\<rparr>)
       k False"

definition on_modifier_press_global :: "QingBoard \<Rightarrow> key \<Rightarrow> QingBoard" where
  "on_modifier_press_global s k =
     (let s1 = s\<lparr>modifiers := (modifiers s)
                  (k := (modifiers s k)\<lparr>pressed := True, used_in_combo := False\<rparr>)\<rparr>;
          s2 = (if k \<in> set SHIFT_KEYS then
                  force_release_modifier s1
                    (if k = KEY_LEFTSHIFT then KEY_RIGHTSHIFT else KEY_LEFTSHIFT)
                else s1);
          s3 = s2\<lparr>engine := set_key_state (engine s2) k True\<rparr>
      in paint_modifier s3 k True)"

definition on_modifier_press_touch :: "QingBoard \<Rightarrow> touch_id \<Rightarrow> key \<Rightarrow> QingBoard" where
  "on_modifier_press_touch s touch k =
     (if \<not> pressed (modifiers s k) then on_modifier_press_global s k else s)"

definition emit_shortcut :: "KeyboardEngine \<Rightarrow> key list \<Rightarrow> KeyboardEngine" where
  "emit_shortcut e combo =
     (let mods = filter (\<lambda>c. c \<in> set MODIFIER_KEYS) combo;
          normals = filter (\<lambda>c. c \<notin> set MODIFIER_KEYS) combo;
          e1 = fold (\<lambda>k e. set_key_state e k True) mods e;
          e2 = (if normals \<noteq> [] then fold (\<lambda>k e. tap_key e k) normals e1
                else fold (\<lambda>k e. tap_key e k) mods e1)
      in fold (\<lambda>k e. set_key_state e k False) (rev mods) e2)"

text \<open>
  \<open>time.monotonic()\<close> is an input: the handlers that read the clock take the reading as
  the argument \<open>now\<close> (seconds).
\<close>

definition handle_shift_double_tap :: "QingBoard \<Rightarrow> real \<Rightarrow> QingBoard" where
  "handle_shift_double_tap s now =
     (if \<not> double_shift_shortcut_enabled s then s\<lparr>last_shift_tap_at := 0\<rparr>
      else
        let elapsed_ms = (now - last_shift_tap_at s) * 1000 in
        if last_shift_tap_at s > 0 \<and> elapsed_ms \<le> real_of_int (double_shift_timeout_ms s) then
          (let s1 = fold (\<lambda>k s. force_release_modifier s k) SHIFT_KEYS s;
               s2 = s1\<lparr>engine := emit_shortcut (engine s1) (double_shift_shortcut s1)\<rparr>
           in s2\<lparr>last_shift_tap_at := 0\<rparr>)
        else s\<lparr>last_shift_tap_at := now\<rparr>)"

definition on_modifier_release_global :: "QingBoard \<Rightarrow> key \<Rightarrow> real \<Rightarrow> QingBoard" where
  "on_modifier_release_global s k now =
     (let s1 = s\<lparr>modifiers := (modifiers s)(k := (modifiers s k)\<lparr>pressed := False\<rparr>)\<rparr> in
      if used_in_combo (modifiers s1 k) then
        (let s2 = (if \<not> latched (modifiers s1 k) then
                     paint_modifier (s1\<lparr>engine := set_key_state (engine s1) k False\<rparr>) k False
                   else s1)
         in s2\<lparr>modifiers := (modifiers s2)(k := (modifiers s2 k)\<lparr>used_in_combo := False\<rparr>)\<rparr>)
      else
        (let s2 = (if latched (modifiers s1 k) then
                     paint_modifier
                       (s1\<lparr>modifiers := (modifiers s1)(k := (modifiers s1 k)\<lparr>latched := False\<rparr>),
                           engine := set_key_state (engine s1) k False\<rparr>)
                       k False
                   else
                     paint_modifier
                       (s1\<lparr>modifiers := (modifiers s1)(k := (modifiers s1 k)\<lparr>latched := True\<rparr>)\<rparr>)
                       k True)
         in if k \<in> set SHIFT_KEYS then handle_shift_double_tap s2 now else s2))"

definition on_modifier_release_touch ::
  "QingBoard \<Rightarrow> touch_id \<Rightarrow> key \<Rightarrow> real \<Rightarrow> QingBoard" where
  "on_modifier_release_touch s touch k now =
     (let still_pressed =
            list_ex (\<lambda>(tid, st). key_code st = k)
              (filter (\<lambda>(tid, st). tid \<noteq> touch) (touch_states s))
      in if \<not> still_pressed then on_modifier_release_global s k now else s)"

definition release_one_shot_modifiers :: "QingBoard \<Rightarrow> QingBoard" where
  "release_one_shot_modifiers s =
     fold (\<lambda>k s.
             if latched (modifiers s k) \<and> \<not> pressed (modifiers s k) then
               paint_modifier
                 (s\<lparr>modifiers := (modifiers s)(k := (modifiers s k)\<lparr>latched := False\<rparr>),
                    engine := set_key_state (engine s) k False\<rparr>)
                 k False
             else s)
       MODIFIER_KEYS s"

text \<open>
  The loop \<open>for mod_state in self.modifiers.values(): if mod_state.pressed:
  mod_state.used_in_combo = True\<close>, written twice in \<open>_on_input_begin\<close> (for Space and for
  regular keys).
\<close>

definition mark_used_in_combo :: "(key \<Rightarrow> ModifierState) \<Rightarrow> key \<Rightarrow> ModifierState" where
  "mark_used_in_combo m =
     (\<lambda>k. if k \<in> set MODIFIER_KEYS \<and> pressed (m k) then (m k)\<lparr>used_in_combo := True\<rparr>
          else m k)"

section \<open>QingBoard: key repeat\<close>

text \<open>
  \<open>if state.delay_source:\<close> is Python truthiness: None and 0 are both false.
\<close>

definition cancel_repeat :: "QingBoard \<Rightarrow> touch_id \<Rightarrow> QingBoard" where
  "cancel_repeat s touch =
     (case map_of (repeat_states s) touch of
        None \<Rightarrow> s
      | Some st \<Rightarrow>
          (let s1 = s\<lparr>repeat_states := AList.delete touch (repeat_states s)\<rparr>;
               s2 = (case delay_source st of
                       None \<Rightarrow> s1
                     | Some i \<Rightarrow> if i \<noteq> 0 then s1\<lparr>glib := source_remove (glib s1) i\<rparr> else s1)
           in (case repeat_source st of
                 None \<Rightarrow> s2
               | Some i \<Rightarrow> if i \<noteq> 0 then s2\<lparr>glib := source_remove (glib s2) i\<rparr> else s2)))"

definition start_repeat :: "QingBoard \<Rightarrow> touch_id \<Rightarrow> key \<Rightarrow> QingBoard" where
  "start_repeat s touch k =
     (if k \<in> set MODIFIER_KEYS \<or> k = KEY_SPACE then s
      else
        let s1 = cancel_repeat s touch;
            (i, g) = timeout_add (glib s1) 420 (Repeat_delay_done touch k)
        in s1\<lparr>glib := g,
              repeat_states :=
                AList.update touch (RepeatState0\<lparr>delay_source := Some i\<rparr>) (repeat_states s1)\<rparr>)"

text \<open>
  A timeout callback returns the state and the boolean it hands back to GLib.
\<close>

definition repeat_delay_done :: "QingBoard \<Rightarrow> touch_id \<Rightarrow> key \<Rightarrow> bool \<times> QingBoard" where
  "repeat_delay_done s touch k =
     (case map_of (touch_states s) touch of
        None \<Rightarrow> (False, s)
      | Some ts \<Rightarrow>
          if key_code ts \<noteq> k then (False, s)
          else
            (case map_of (repeat_states s) touch of
               None \<Rightarrow> (False, s)
             | Some st \<Rightarrow>
                 (let (i, g) = timeout_add (glib s) 70 (Repeat_tick touch k)
                  in (False,
                      s\<lparr>glib := g,
                        repeat_states :=
                          AList.update touch (st\<lparr>repeat_source := Some i, delay_source := None\<rparr>)
                            (repeat_states s)\<rparr>))))"

definition repeat_tick :: "QingBoard \<Rightarrow> touch_id \<Rightarrow> key \<Rightarrow> bool \<times> QingBoard" where
  "repeat_tick s touch k =
     (case map_of (touch_states s) touch of
        None \<Rightarrow> (False, cancel_repeat s touch)
      | Some ts \<Rightarrow>
          if key_code ts \<noteq> k then (False, cancel_repeat s touch)
          else (True, s\<lparr>engine := tap_key (engine s) k\<rparr>))"

definition stop_all_other_repeats :: "QingBoard \<Rightarrow> key \<Rightarrow> touch_id \<Rightarrow> QingBoard" where
  "stop_all_other_repeats s current_key current_touch =
     fold (\<lambda>(tid, st) s.
             if tid \<noteq> current_touch \<and> key_code st \<notin> set MODIFIER_KEYS
                \<and> key_code st \<noteq> KEY_SPACE
             then cancel_repeat s tid else s)
       (touch_states s) s"

section \<open>QingBoard: space dragging (cursor mode)\<close>

definition cancel_space_long_press :: "QingBoard \<Rightarrow> touch_id \<Rightarrow> QingBoard" where
  "cancel_space_long_press s touch =
     (case map_of (space_tracking s) touch of
        None \<Rightarrow> s
      | Some tracking \<Rightarrow>
          (case long_press_source tracking of
             None \<Rightarrow> s
           | Some i \<Rightarrow>
               s\<lparr>glib := source_remove (glib s) i,
                 space_tracking :=
                   AList.update touch (tracking\<lparr>long_press_source := None\<rparr>) (space_tracking s)\<rparr>))"

definition begin_space_tracking :: "QingBoard \<Rightarrow> touch_id \<Rightarrow> QingBoard" where
  "begin_space_tracking s touch =
     (let s1 = cancel_space_long_press s touch;
          (i, g) = timeout_add (glib s1) (space_long_press_ms s1) (Enter_space_cursor_mode touch)
      in s1\<lparr>glib := g,
            space_tracking :=
              AList.update touch (SpaceTrackingState0\<lparr>long_press_source := Some i\<rparr>)
                (space_tracking s1)\<rparr>)"

definition finish_space_tracking :: "QingBoard \<Rightarrow> touch_id \<Rightarrow> QingBoard" where
  "finish_space_tracking s touch =
     (case map_of (space_tracking s) touch of
        None \<Rightarrow> s\<lparr>engine := tap_key (engine s) KEY_SPACE\<rparr>
      | Some tracking \<Rightarrow>
          (let s1 = s\<lparr>space_tracking := AList.delete touch (space_tracking s)\<rparr>;
               s2 = cancel_space_long_press s1 touch
           in if \<not> cursor_mode tracking then s2\<lparr>engine := tap_key (engine s2) KEY_SPACE\<rparr>
              else s2))"

definition enter_space_cursor_mode :: "QingBoard \<Rightarrow> touch_id \<Rightarrow> bool \<times> QingBoard" where
  "enter_space_cursor_mode s touch =
     (case map_of (touch_states s) touch of
        None \<Rightarrow> (False, s)
      | Some ts \<Rightarrow>
          if key_code ts \<noteq> KEY_SPACE then (False, s)
          else
            (case map_of (space_tracking s) touch of
               None \<Rightarrow> (False, s)
             | Some tracking \<Rightarrow>
                 (False,
                  set_space_cursor_visual
                    (s\<lparr>space_tracking :=
                         AList.update touch (tracking\<lparr>cursor_mode := True\<rparr>) (space_tracking s)\<rparr>)
                    touch True)))"

text \<open>
  Floats are modelled as real numbers: \<open>** 0.5\<close> is the square root, and \<open>int(v)\<close>
  truncates towards zero. Division by a zero float raises ZeroDivisionError.
\<close>

datatype error = ZeroDivisionError

definition py_int :: "real \<Rightarrow> int" where
  "py_int v = (if v \<ge> 0 then \<lfloor>v\<rfloor> else \<lceil>v\<rceil>)"

definition emit_cursor_moves ::
  "KeyboardEngine \<Rightarrow> SpaceTrackingState \<Rightarrow> real \<Rightarrow> error + (KeyboardEngine \<times> SpaceTrackingState)" where
  "emit_cursor_moves e tracking step_threshold =
     (if step_threshold = 0 then Inl ZeroDivisionError
      else if \<bar>accum_x tracking\<bar> \<ge> \<bar>accum_y tracking\<bar> then
        (let steps = py_int (\<bar>accum_x tracking\<bar> / step_threshold) in
         if steps > 0 then
           (let k = (if accum_x tracking > 0 then KEY_RIGHT else KEY_LEFT);
                e1 = fold (\<lambda>_ e. tap_key e k) [0..<nat steps] e
            in Inr (e1,
                 tracking\<lparr>accum_x := accum_x tracking -
                              (if accum_x tracking > 0 then step_threshold * real_of_int steps
                               else - step_threshold * real_of_int steps),
                           accum_y := 0\<rparr>))
         else Inr (e, tracking))
      else
        (let steps = py_int (\<bar>accum_y tracking\<bar> / step_threshold) in
         if steps > 0 then
           (let k = (if accum_y tracking > 0 then KEY_DOWN else KEY_UP);
                e1 = fold (\<lambda>_ e. tap_key e k) [0..<nat steps] e
            in Inr (e1,
                 tracking\<lparr>accum_y := accum_y tracking -
                              (if accum_y tracking > 0 then step_threshold * real_of_int steps
                               else - step_threshold * real_of_int steps),
                           accum_x := 0\<rparr>))
         else Inr (e, tracking)))"

text \<open>
  The step threshold of one motion sample, as \<open>_on_space_motion_touch\<close> computes it from
  the displacement \<open>(dx, dy)\<close> and the raw elapsed time (before the clamp to 0.001 s).
\<close>

definition step_threshold_of :: "real \<Rightarrow> real \<Rightarrow> real \<Rightarrow> real" where
  "step_threshold_of dx dy elapsed =
     (let dt = max elapsed 0.001;
          speed = sqrt (dx * dx + dy * dy) / dt
      in max 8.0 (28.0 - min (speed / 120.0) 16.0))"

definition on_space_motion_touch ::
  "QingBoard \<Rightarrow> touch_id \<Rightarrow> real \<Rightarrow> real \<Rightarrow> int \<Rightarrow> error + QingBoard" where
  "on_space_motion_touch s touch x y event_time =
     (case map_of (space_tracking s) touch of
        None \<Rightarrow> Inr s
      | Some tracking \<Rightarrow>
          if \<not> cursor_mode tracking then Inr s
          else if last_motion_at tracking = 0 then
            Inr (s\<lparr>space_tracking :=
                     AList.update touch
                       (tracking\<lparr>last_x := x, last_y := y,
                                 last_motion_at := real_of_int event_time / 1000\<rparr>)
                       (space_tracking s)\<rparr>)
          else
            (let dx = x - last_x tracking;
                 dy = y - last_y tracking;
                 step_threshold =
                   step_threshold_of dx dy
                     (real_of_int event_time / 1000 - last_motion_at tracking);
                 t1 = tracking\<lparr>last_x := x, last_y := y,
                                last_motion_at := real_of_int event_time / 1000,
                                accum_x := accum_x tracking + dx,
                                accum_y := accum_y tracking + dy\<rparr>
             in case emit_cursor_moves (engine s) t1 step_threshold of
                  Inl err \<Rightarrow> Inl err
                | Inr (e, t2) \<Rightarrow>
                    Inr (s\<lparr>engine := e,
                           space_tracking := AList.update touch t2 (space_tracking s)\<rparr>)))"

section \<open>QingBoard: touch event handling\<close>

fun find_key_at :: "(key \<times> Rectangle) list \<Rightarrow> real \<Rightarrow> real \<Rightarrow> key option" where
  "find_key_at [] x y = None"
| "find_key_at ((k, rect) # rects) x y =
     (if real_of_int (rect_x rect) \<le> x \<and> x \<le> real_of_int (rect_x rect + rect_width rect)
         \<and> real_of_int (rect_y rect) \<le> y \<and> y \<le> real_of_int (rect_y rect + rect_height rect)
      then Some k else find_key_at rects x y)"

definition on_input_end :: "QingBoard \<Rightarrow> touch_id \<Rightarrow> int \<Rightarrow> real \<Rightarrow> QingBoard" where
  "on_input_end s touch event_time now =
     (case map_of (touch_states s) touch of
        None \<Rightarrow> s
      | Some st \<Rightarrow>
          (let s1 = s\<lparr>touch_states := AList.delete touch (touch_states s)\<rparr>;
               k = key_code st;
               count = key_press_count s1 k;
               new_count = (if count > 0 then count - 1 else 0);
               s2 = (if count > 0 then s1\<lparr>key_press_count := (key_press_count s1)(k := new_count)\<rparr>
                     else s1)
           in if k = KEY_CAPSLOCK then s2
              else if k \<in> set MODIFIER_KEYS then on_modifier_release_touch s2 touch k now
              else if k = KEY_SPACE then
                update_visual
                  (update_shift_labels (release_one_shot_modifiers (finish_space_tracking s2 touch)))
                  k False
              else
                (let s3 = update_shift_labels (release_one_shot_modifiers (cancel_repeat s2 touch))
                 in if new_count = 0 then update_visual s3 k False else s3)))"

text \<open>
  \<open>_on_input_begin\<close> reads the clock once itself (the press time) and, when it first ends
  a touch point that is still tracked, once more inside the double-tap check; both
  readings are the argument \<open>now\<close>.
\<close>

definition on_input_begin ::
  "QingBoard \<Rightarrow> touch_id \<Rightarrow> real \<Rightarrow> real \<Rightarrow> int \<Rightarrow> real \<Rightarrow> QingBoard" where
  "on_input_begin s touch x y event_time now =
     (let s0 = (if map_of (touch_states s) touch \<noteq> None then on_input_end s touch event_time now
                else s)
      in case find_key_at (key_rects s0) x y of
           None \<Rightarrow> s0
         | Some k \<Rightarrow>
             (let s1 = s0\<lparr>touch_states :=
                            AList.update touch \<lparr>key_code = k, press_time = now\<rparr> (touch_states s0),
                          key_press_count :=
                            (key_press_count s0)(k := key_press_count s0 k + 1)\<rparr>
              in if k = KEY_CAPSLOCK then
                   flash_regular_key
                     (update_caps_indicator
                        (s1\<lparr>capslock_on := \<not> capslock_on s1,
                            engine := tap_key (engine s1) KEY_CAPSLOCK\<rparr>))
                     k
                 else if k \<in> set MODIFIER_KEYS then
                   update_shift_labels (on_modifier_press_touch s1 touch k)
                 else if k = KEY_SPACE then
                   update_visual
                     (begin_space_tracking
                        (s1\<lparr>modifiers := mark_used_in_combo (modifiers s1)\<rparr>) touch)
                     k True
                 else
                   (let s2 = s1\<lparr>modifiers := mark_used_in_combo (modifiers s1)\<rparr>;
                        s3 = stop_all_other_repeats s2 k touch;
                        s4 = s3\<lparr>engine := tap_key (engine s3) k\<rparr>;
                        s5 = start_repeat s4 touch k
                    in if key_press_count s5 k = 1 then update_visual s5 k True else s5)))"

definition on_input_update ::
  "QingBoard \<Rightarrow> touch_id \<Rightarrow> real \<Rightarrow> real \<Rightarrow> int \<Rightarrow> error + QingBoard" where
  "on_input_update s touch x y event_time =
     (case map_of (touch_states s) touch of
        None \<Rightarrow> Inr s
      | Some st \<Rightarrow>
          if key_code st = KEY_SPACE then on_space_motion_touch s touch x y event_time
          else Inr s)"

section \<open>QingBoard: the main loop running a due timeout\<close>

definition run_callback :: "QingBoard \<Rightarrow> callback \<Rightarrow> bool \<times> QingBoard" where
  "run_callback s cb =
     (case cb of
        Repeat_delay_done touch k \<Rightarrow> repeat_delay_done s touch k
      | Repeat_tick touch k \<Rightarrow> repeat_tick s touch k
      | Enter_space_cursor_mode touch \<Rightarrow> enter_space_cursor_mode s touch
      | Flash_clear k \<Rightarrow> (False, update_visual s k False))"

definition fire_source :: "QingBoard \<Rightarrow> nat \<Rightarrow> QingBoard" where
  "fire_source s i =
     (case map_of (sources (glib s)) i of
        None \<Rightarrow> s
      | Some (interval, cb) \<Rightarrow>
          (let (again, s1) = run_callback s cb
           in if again then s1 else s1\<lparr>glib := source_remove (glib s1) i\<rparr>))"

text \<open>
  The state after \<open>__init__\<close> with the default settings, once \<open>_update_key_rects\<close> has
  run: every widget of the layout has its rectangle, and the modifier labels are the
  widgets of the modifier keys.
\<close>

definition QingBoard_init :: "(key \<times> Rectangle) list \<Rightarrow> QingBoard" where
  "QingBoard_init rects =
     \<lparr>touch_states = [], key_rects = rects, key_widgets = set (map fst rects),
      space_tracking = [], repeat_states = [], key_press_count = (\<lambda>k. 0),
      engine = \<lparr>emitted = [], down_keys = {}\<rparr>,
      modifiers = (\<lambda>k. ModifierState0),
      modifier_labels = set (filter (\<lambda>k. k \<in> set MODIFIER_KEYS) (map fst rects)),
      last_shift_tap_at = 0, double_shift_timeout_ms = 380,
      double_shift_shortcut_enabled = True,
      double_shift_shortcut = [KEY_LEFTSHIFT, KEY_SPACE],
      capslock_on = False, space_long_press_ms = 300,
      glib = \<lparr>sources = [], next_source_id = 1\<rparr>,
      pressed_class = {}, cursor_mode_class = False, symbols_shown = False,
      caps_indicator = False\<rparr>"

section \<open>MutterBoard\<close>

text \<open>
  The older window class of the repository: one Gtk.Button per key, no touch points, no
  special handling of Space or CapsLock. Its \<open>RepeatState\<close>, \<open>ModifierState\<close> and
  \<open>KeyboardEngine\<close> classes and its \<open>_emit_shortcut\<close> are the ones above, word for word.
  Repeat states are keyed by key code. The handlers of a button receive the button as
  \<open>widget\<close>; it is the button built for \<open>key_code\<close>.
\<close>

datatype mb_callback =
    MB_repeat_delay_done key
  | MB_repeat_tick key

record MutterBoard =
  mb_engine :: KeyboardEngine
  mb_modifiers :: "key \<Rightarrow> ModifierState"
  mb_modifier_buttons :: "key set"
  mb_repeat_states :: "(key \<times> RepeatState) list"
  mb_active_keys :: "key set"
  mb_last_shift_tap_at :: real
  mb_double_shift_timeout_ms :: int
  mb_double_shift_shortcut :: "key list"
  mb_glib :: "mb_callback GLib"
  mb_pressed_class :: "key set"
  mb_symbols_shown :: bool

definition mb_paint_pressed :: "MutterBoard \<Rightarrow> key \<Rightarrow> bool \<Rightarrow> MutterBoard" where
  "mb_paint_pressed s k active =
     (if active then s\<lparr>mb_pressed_class := insert k (mb_pressed_class s)\<rparr>
      else s\<lparr>mb_pressed_class := mb_pressed_class s - {k}\<rparr>)"

definition mb_paint_modifier :: "MutterBoard \<Rightarrow> key \<Rightarrow> bool \<Rightarrow> MutterBoard" where
  "mb_paint_modifier s k active =
     (if k \<in> mb_modifier_buttons s then mb_paint_pressed s k active else s)"

definition mb_update_shift_labels :: "MutterBoard \<Rightarrow> MutterBoard" where
  "mb_update_shift_labels s =
     s\<lparr>mb_symbols_shown :=
         list_ex (\<lambda>k. pressed (mb_modifiers s k) \<or> latched (mb_modifiers s k)) SHIFT_KEYS\<rparr>"

definition mb_force_release_modifier :: "MutterBoard \<Rightarrow> key \<Rightarrow> MutterBoard" where
  "mb_force_release_modifier s k =
     mb_paint_modifier
       (s\<lparr>mb_modifiers := (mb_modifiers s)
             (k := (mb_modifiers s k)\<lparr>pressed := False, latched := False, used_in_combo := False\<rparr>),
          mb_engine := set_key_state (mb_engine s) k False\<rparr>)
       k False"

definition mb_on_modifier_press :: "MutterBoard \<Rightarrow> key \<Rightarrow> MutterBoard" where
  "mb_on_modifier_press s k =
     (let s1 = s\<lparr>mb_modifiers := (mb_modifiers s)
                  (k := (mb_modifiers s k)\<lparr>pressed := True, used_in_combo := False\<rparr>)\<rparr>;
          s2 = (if k \<in> set SHIFT_KEYS then
                  mb_force_release_modifier s1
                    (if k = KEY_LEFTSHIFT then KEY_RIGHTSHIFT else KEY_LEFTSHIFT)
                else s1);
          s3 = s2\<lparr>mb_engine := set_key_state (mb_engine s2) k True\<rparr>
      in mb_paint_modifier s3 k True)"

definition mb_handle_shift_double_tap :: "MutterBoard \<Rightarrow> real \<Rightarrow> MutterBoard" where
  "mb_handle_shift_double_tap s now =
     (let elapsed_ms = (now - mb_last_shift_tap_at s) * 1000 in
      if mb_last_shift_tap_at s > 0 \<and> elapsed_ms \<le> real_of_int (mb_double_shift_timeout_ms s) then
        (let s1 = fold (\<lambda>k s. mb_force_release_modifier s k) SHIFT_KEYS s;
             s2 = s1\<lparr>mb_engine := emit_shortcut (mb_engine s1) (mb_double_shift_shortcut s1)\<rparr>
         in s2\<lparr>mb_last_shift_tap_at := 0\<rparr>)
      else s\<lparr>mb_last_shift_tap_at := now\<rparr>)"

definition mb_on_modifier_release :: "MutterBoard \<Rightarrow> key \<Rightarrow> real \<Rightarrow> MutterBoard" where
  "mb_on_modifier_release s k now =
     (let s1 = s\<lparr>mb_modifiers := (mb_modifiers s)(k := (mb_modifiers s k)\<lparr>pressed := False\<rparr>)\<rparr> in
      if used_in_combo (mb_modifiers s1 k) then
        (let s2 = (if \<not> latched (mb_modifiers s1 k) then
                     mb_paint_modifier
                       (s1\<lparr>mb_engine := set_key_state (mb_engine s1) k False\<rparr>) k False
                   else s1)
         in s2\<lparr>mb_modifiers :=
                 (mb_modifiers s2)(k := (mb_modifiers s2 k)\<lparr>used_in_combo := False\<rparr>)\<rparr>)
      else
        (let s2 = (if latched (mb_modifiers s1 k) then
                     mb_paint_modifier
                       (s1\<lparr>mb_modifiers :=
                             (mb_modifiers s1)(k := (mb_modifiers s1 k)\<lparr>latched := False\<rparr>),
                           mb_engine := set_key_state (mb_engine s1) k False\<rparr>)
                       k False
                   else
                     mb_paint_modifier
                       (s1\<lparr>mb_modifiers :=
                             (mb_modifiers s1)(k := (mb_modifiers s1 k)\<lparr>latched := True\<rparr>)\<rparr>)
                       k True)
         in if k \<in> set SHIFT_KEYS then mb_handle_shift_double_tap s2 now else s2))"

definition mb_release_one_shot_modifiers :: "MutterBoard \<Rightarrow> MutterBoard" where
  "mb_release_one_shot_modifiers s =
     fold (\<lambda>k s.
             if latched (mb_modifiers s k) \<and> \<not> pressed (mb_modifiers s k) then
               mb_paint_modifier
                 (s\<lparr>mb_modifiers := (mb_modifiers s)(k := (mb_modifiers s k)\<lparr>latched := False\<rparr>),
                    mb_engine := set_key_state (mb_engine s) k False\<rparr>)
                 k False
             else s)
       MODIFIER_KEYS s"

definition mb_cancel_repeat :: "MutterBoard \<Rightarrow> key \<Rightarrow> MutterBoard" where
  "mb_cancel_repeat s k =
     (case map_of (mb_repeat_states s) k of
        None \<Rightarrow> s
      | Some st \<Rightarrow>
          (let s1 = s\<lparr>mb_repeat_states := AList.delete k (mb_repeat_states s)\<rparr>;
               s2 = (case delay_source st of
                       None \<Rightarrow> s1
                     | Some i \<Rightarrow>
                         if i \<noteq> 0 then s1\<lparr>mb_glib := source_remove (mb_glib s1) i\<rparr> else s1)
           in (case repeat_source st of
                 None \<Rightarrow> s2
               | Some i \<Rightarrow>
                   if i \<noteq> 0 then s2\<lparr>mb_glib := source_remove (mb_glib s2) i\<rparr> else s2)))"

definition mb_start_repeat :: "MutterBoard \<Rightarrow> key \<Rightarrow> MutterBoard" where
  "mb_start_repeat s k =
     (if k \<in> set MODIFIER_KEYS then s
      else
        let s1 = mb_cancel_repeat s k;
            (i, g) = timeout_add (mb_glib s1) 420 (MB_repeat_delay_done k)
        in s1\<lparr>mb_glib := g,
              mb_repeat_states :=
                AList.update k (RepeatState0\<lparr>delay_source := Some i\<rparr>) (mb_repeat_states s1)\<rparr>)"

definition mb_repeat_delay_done :: "MutterBoard \<Rightarrow> key \<Rightarrow> bool \<times> MutterBoard" where
  "mb_repeat_delay_done s k =
     (case map_of (mb_repeat_states s) k of
        None \<Rightarrow> (False, s)
      | Some st \<Rightarrow>
          if k \<notin> mb_active_keys s then (False, s)
          else
            (let (i, g) = timeout_add (mb_glib s) 70 (MB_repeat_tick k)
             in (False,
                 s\<lparr>mb_glib := g,
                   mb_repeat_states :=
                     AList.update k (st\<lparr>repeat_source := Some i, delay_source := None\<rparr>)
                       (mb_repeat_states s)\<rparr>)))"

definition mb_repeat_tick :: "MutterBoard \<Rightarrow> key \<Rightarrow> bool \<times> MutterBoard" where
  "mb_repeat_tick s k =
     (if k \<notin> mb_active_keys s then (False, mb_cancel_repeat s k)
      else (True, s\<lparr>mb_engine := tap_key (mb_engine s) k\<rparr>))"

definition mb_on_button_press :: "MutterBoard \<Rightarrow> key \<Rightarrow> MutterBoard" where
  "mb_on_button_press s k =
     (let s1 = mb_paint_pressed (s\<lparr>mb_active_keys := insert k (mb_active_keys s)\<rparr>) k True in
      if k \<in> set MODIFIER_KEYS then mb_update_shift_labels (mb_on_modifier_press s1 k)
      else
        let s2 = s1\<lparr>mb_modifiers := mark_used_in_combo (mb_modifiers s1)\<rparr>;
            s3 = s2\<lparr>mb_engine := set_key_state (mb_engine s2) k True\<rparr>
        in mb_start_repeat s3 k)"

definition mb_on_button_release :: "MutterBoard \<Rightarrow> key \<Rightarrow> real \<Rightarrow> MutterBoard" where
  "mb_on_button_release s k now =
     (let s1 = mb_paint_pressed (s\<lparr>mb_active_keys := mb_active_keys s - {k}\<rparr>) k False in
      if k \<in> set MODIFIER_KEYS then mb_update_shift_labels (mb_on_modifier_release s1 k now)
      else
        let s2 = mb_cancel_repeat s1 k;
            s3 = s2\<lparr>mb_engine := set_key_state (mb_engine s2) k False\<rparr>
        in mb_update_shift_labels (mb_release_one_shot_modifiers s3))"

definition mb_on_button_leave :: "MutterBoard \<Rightarrow> key \<Rightarrow> real \<Rightarrow> MutterBoard" where
  "mb_on_button_leave s k now =
     (if k \<in> mb_active_keys s then mb_on_button_release s k now else s)"

text \<open>
  The state after \<open>__init__\<close> with the default settings; \<open>buttons\<close> are the keys of the
  modifier buttons that were built.
\<close>

definition MutterBoard_init :: "key set \<Rightarrow> MutterBoard" where
  "MutterBoard_init buttons =
     \<lparr>mb_engine = \<lparr>emitted = [], down_keys = {}\<rparr>,
      mb_modifiers = (\<lambda>k. ModifierState0),
      mb_modifier_buttons = buttons,
      mb_repeat_states = [], mb_active_keys = {},
      mb_last_shift_tap_at = 0, mb_double_shift_timeout_ms = 380,
      mb_double_shift_shortcut = [KEY_LEFTSHIFT, KEY_SPACE],
      mb_glib = \<lparr>sources = [], next_source_id = 1\<rparr>,
      mb_pressed_class = {}, mb_symbols_shown = False\<rparr>"

section \<open>An example layout\<close>

text \<open>
  Eight keys in a row, each 10 pixels wide and 10 high, 10 pixels apart; the examples
  below press them at their left edge.
\<close>

definition demo_rects :: "(key \<times> Rectangle) list" where
  "demo_rects =
     [(KEY_LEFTSHIFT, \<lparr>rect_x = 0, rect_y = 0, rect_width = 10, rect_height = 10\<rparr>),
      (KEY_RIGHTSHIFT, \<lparr>rect_x = 20, rect_y = 0, rect_width = 10, rect_height = 10\<rparr>),
      (KEY_LEFTCTRL, \<lparr>rect_x = 40, rect_y = 0, rect_width = 10, rect_height = 10\<rparr>),
      (KEY_RIGHTCTRL, \<lparr>rect_x = 60, rect_y = 0, rect_width = 10, rect_height = 10\<rparr>),
      (KEY_A, \<lparr>rect_x = 80, rect_y = 0, rect_width = 10, rect_height = 10\<rparr>),
      (KEY_S, \<lparr>rect_x = 100, rect_y = 0, rect_width = 10, rect_height = 10\<rparr>),
      (KEY_SPACE, \<lparr>rect_x = 120, rect_y = 0, rect_width = 10, rect_height = 10\<rparr>),
      (KEY_CAPSLOCK, \<lparr>rect_x = 140, rect_y = 0, rect_width = 10, rect_height = 10\<rparr>)]"

definition demo_board :: QingBoard where
  "demo_board = QingBoard_init demo_rects"

definition demo_mutterboard :: MutterBoard where
  "demo_mutterboard = MutterBoard_init (set MODIFIER_KEYS)"

section \<open>Conditions and event sequences used in the statements\<close>

text \<open>
  The condition under which \<open>_handle_shift_double_tap\<close> emits the shortcut, for a
  clock reading \<open>now\<close>.
\<close>

definition double_tap_due :: "QingBoard \<Rightarrow> real \<Rightarrow> bool" where
  "double_tap_due s now =
     (double_shift_shortcut_enabled s \<and> last_shift_tap_at s > 0
      \<and> (now - last_shift_tap_at s) * 1000 \<le> real_of_int (double_shift_timeout_ms s))"

definition mb_double_tap_due :: "MutterBoard \<Rightarrow> real \<Rightarrow> bool" where
  "mb_double_tap_due m now =
     (mb_last_shift_tap_at m > 0
      \<and> (now - mb_last_shift_tap_at m) * 1000 \<le> real_of_int (mb_double_shift_timeout_ms m))"

text \<open>
  One tap of a modifier: its global press followed by its global release, nothing in
  between.
\<close>

definition modifier_tap :: "QingBoard \<Rightarrow> key \<Rightarrow> real \<Rightarrow> QingBoard" where
  "modifier_tap s k now = on_modifier_release_global (on_modifier_press_global s k) k now"

definition mb_modifier_tap :: "MutterBoard \<Rightarrow> key \<Rightarrow> real \<Rightarrow> MutterBoard" where
  "mb_modifier_tap m k now = mb_on_modifier_release (mb_on_modifier_press m k) k now"

text \<open>
  The state a release without combo reaches before the double-tap check: the modifier is
  no longer held and its latch is toggled (released in the engine when it was latched).
\<close>

definition toggled :: "QingBoard \<Rightarrow> key \<Rightarrow> QingBoard" where
  "toggled s k =
     s\<lparr>modifiers := (modifiers s)
           (k := (modifiers s k)\<lparr>pressed := False, latched := \<not> latched (modifiers s k)\<rparr>),
       engine := (if latched (modifiers s k) then set_key_state (engine s) k False else engine s),
       pressed_class :=
         (if k \<in> modifier_labels s then
            (if latched (modifiers s k) then pressed_class s - {k} else insert k (pressed_class s))
          else pressed_class s)\<rparr>"

definition mb_toggled :: "MutterBoard \<Rightarrow> key \<Rightarrow> MutterBoard" where
  "mb_toggled m k =
     m\<lparr>mb_modifiers := (mb_modifiers m)
           (k := (mb_modifiers m k)\<lparr>pressed := False, latched := \<not> latched (mb_modifiers m k)\<rparr>),
       mb_engine :=
         (if latched (mb_modifiers m k) then set_key_state (mb_engine m) k False else mb_engine m),
       mb_pressed_class :=
         (if k \<in> mb_modifier_buttons m then
            (if latched (mb_modifiers m k) then mb_pressed_class m - {k}
             else insert k (mb_pressed_class m))
          else mb_pressed_class m)\<rparr>"



section \<open>Sequences of motion samples in cursor mode\<close>





text \<open>The events of \<open>n\<close> taps of one key.\<close>

definition taps :: "nat \<Rightarrow> key \<Rightarrow> (key \<times> nat) list" where
  "taps n k = concat (replicate n [(k, 1), (k, 0)])"




section \<open>Repeat timers and the states the handlers reach\<close>

text \<open>
  An ordinary key: not a modifier, not Space, not CapsLock. These are the keys for which
  \<open>_on_input_begin\<close> reaches \<open>_start_repeat\<close>.
\<close>

definition ordinary :: "key \<Rightarrow> bool" where
  "ordinary k = (k \<notin> set MODIFIER_KEYS \<and> k \<noteq> KEY_SPACE \<and> k \<noteq> KEY_CAPSLOCK)"

text \<open>
  The touch point and key a timeout callback repeats, if it is one of the two repeat
  callbacks, and the same for the pending timeout with a given source id.
\<close>

fun repeat_target :: "callback \<Rightarrow> (touch_id \<times> key) option" where
  "repeat_target (Repeat_delay_done t k) = Some (t, k)"
| "repeat_target (Repeat_tick t k) = Some (t, k)"
| "repeat_target (Enter_space_cursor_mode t) = None"
| "repeat_target (Flash_clear k) = None"

definition repeat_timer :: "QingBoard \<Rightarrow> nat \<Rightarrow> (touch_id \<times> key) option" where
  "repeat_timer s i =
     (case map_of (sources (glib s)) i of
        None \<Rightarrow> None
      | Some (interval, cb) \<Rightarrow> repeat_target cb)"

text \<open>
  The states of a window with the key rectangles \<open>rects\<close> that the event handlers and the
  timeout callbacks reach from the initial state, each with the touch point and key of
  the latest begin on an ordinary key. Coordinates, event times, clock readings and the
  order in which due timeouts run are arbitrary.
\<close>

inductive reachable ::
  "(key \<times> Rectangle) list \<Rightarrow> QingBoard \<Rightarrow> (touch_id \<times> key) option \<Rightarrow> bool"
  for rects :: "(key \<times> Rectangle) list" where
  reach_init: "reachable rects (QingBoard_init rects) None"
| reach_begin:
    "reachable rects s latest \<Longrightarrow>
     reachable rects (on_input_begin s touch x y event_time now)
       (case find_key_at (key_rects s) x y of
          None \<Rightarrow> latest
        | Some k \<Rightarrow> if ordinary k then Some (touch, k) else latest)"
| reach_end:
    "reachable rects s latest \<Longrightarrow> reachable rects (on_input_end s touch event_time now) latest"
| reach_update:
    "reachable rects s latest \<Longrightarrow> on_input_update s touch x y event_time = Inr s' \<Longrightarrow>
     reachable rects s' latest"
| reach_timeout:
    "reachable rects s latest \<Longrightarrow> reachable rects (fire_source s i) latest"

text \<open>
  The invariant of the repeat timers, on the pending timeouts \<open>G\<close>, the next source id
  \<open>n\<close>, the repeat states \<open>R\<close>, the touch states \<open>T\<close> and the latest begin on an ordinary
  key: source id 0 is never used; a pending repeat timeout is the one its touch point's
  repeat state records, and repeats the key of the latest begin; a repeat state has
  at most one of its two sources set, and belongs to a touch point that holds the
  ordinary key of the latest begin.
\<close>

definition rinv ::
  "(nat \<rightharpoonup> int \<times> callback) \<Rightarrow> nat \<Rightarrow> (touch_id \<rightharpoonup> RepeatState) \<Rightarrow> (touch_id \<rightharpoonup> TouchState)
     \<Rightarrow> (touch_id \<times> key) option \<Rightarrow> bool" where
  "rinv G n R T latest =
     (G 0 = None \<and> n \<noteq> 0
      \<and> (\<forall>i iv t k. G i = Some (iv, Repeat_delay_done t k) \<longrightarrow>
            latest = Some (t, k) \<and> (\<exists>r. R t = Some r \<and> delay_source r = Some i))
      \<and> (\<forall>i iv t k. G i = Some (iv, Repeat_tick t k) \<longrightarrow>
            latest = Some (t, k) \<and> (\<exists>r. R t = Some r \<and> repeat_source r = Some i))
      \<and> (\<forall>t r. R t = Some r \<longrightarrow>
            (delay_source r = None \<or> repeat_source r = None)
            \<and> (\<exists>st. T t = Some st \<and> ordinary (key_code st) \<and> latest = Some (t, key_code st))))"

definition repeat_inv :: "QingBoard \<Rightarrow> (touch_id \<times> key) option \<Rightarrow> bool" where
  "repeat_inv s latest =
     rinv (map_of (sources (glib s))) (next_source_id (glib s)) (map_of (repeat_states s))
       (map_of (touch_states s)) latest"

text \<open>
  The example board with touch point 1 holding A and touch point 2 holding S, pressed in
  this order.
\<close>

definition demo_two_keys :: QingBoard where
  "demo_two_keys = on_input_begin (on_input_begin demo_board 1 85 5 0 1) 2 105 5 0 2"

section \<open>MutterBoard: the main loop running a due timeout\<close>

definition mb_run_callback :: "MutterBoard \<Rightarrow> mb_callback \<Rightarrow> bool \<times> MutterBoard" where
  "mb_run_callback m cb =
     (case cb of
        MB_repeat_delay_done k \<Rightarrow> mb_repeat_delay_done m k
      | MB_repeat_tick k \<Rightarrow> mb_repeat_tick m k)"

definition mb_fire_source :: "MutterBoard \<Rightarrow> nat \<Rightarrow> MutterBoard" where
  "mb_fire_source m i =
     (case map_of (sources (mb_glib m)) i of
        None \<Rightarrow> m
      | Some (interval, cb) \<Rightarrow>
          (let (again, m1) = mb_run_callback m cb
           in if again then m1 else m1\<lparr>mb_glib := source_remove (mb_glib m1) i\<rparr>))"

text \<open>The example MutterBoard with the buttons A and S held, pressed in this order.\<close>

definition demo_mb_two_keys :: MutterBoard where
  "demo_mb_two_keys = mb_on_button_press (mb_on_button_press demo_mutterboard KEY_A) KEY_S"


section \<open>Basic facts about the engine and the painting helpers\<close>

lemma set_key_state_eq:
  "set_key_state e k p =
     e\<lparr>emitted := emitted e @
          (if p then (if k \<in> down_keys e then [] else [(k, 1)])
           else (if k \<in> down_keys e then [(k, 0)] else [])),
       down_keys := (if p then insert k (down_keys e) else down_keys e - {k})\<rparr>"
  by (auto simp: set_key_state_def Let_def insert_absorb)

lemma paint_modifier_eq:
  "paint_modifier s k a =
     s\<lparr>pressed_class :=
         (if k \<in> modifier_labels s then
            (if a then insert k (pressed_class s) else pressed_class s - {k})
          else pressed_class s)\<rparr>"
  by (simp add: paint_modifier_def)

lemma mb_paint_modifier_eq:
  "mb_paint_modifier s k a =
     s\<lparr>mb_pressed_class :=
         (if k \<in> mb_modifier_buttons s then
            (if a then insert k (mb_pressed_class s) else mb_pressed_class s - {k})
          else mb_pressed_class s)\<rparr>"
  by (simp add: mb_paint_modifier_def mb_paint_pressed_def)

lemma find_demo:
  "find_key_at demo_rects 0 0 = Some KEY_LEFTSHIFT"
  "find_key_at demo_rects 20 0 = Some KEY_RIGHTSHIFT"
  "find_key_at demo_rects 40 0 = Some KEY_LEFTCTRL"
  "find_key_at demo_rects 60 0 = Some KEY_RIGHTCTRL"
  "find_key_at demo_rects 80 0 = Some KEY_A"
  "find_key_at demo_rects 100 0 = Some KEY_S"
  "find_key_at demo_rects 120 0 = Some KEY_SPACE"
  "find_key_at demo_rects 140 0 = Some KEY_CAPSLOCK"
  by (simp_all add: demo_rects_def)

lemmas demo_simps =
  demo_board_def QingBoard_init_def demo_mutterboard_def MutterBoard_init_def demo_rects_def
  key_defs MODIFIER_KEYS_def SHIFT_KEYS_def ModifierState0_def

section \<open>Pressing a modifier\<close>

lemma shift_pair_cases:
  "(A, B) = (KEY_LEFTSHIFT, KEY_RIGHTSHIFT) \<or> (A, B) = (KEY_RIGHTSHIFT, KEY_LEFTSHIFT) \<Longrightarrow>
   A \<in> set SHIFT_KEYS \<and> A \<noteq> B
   \<and> (if A = KEY_LEFTSHIFT then KEY_RIGHTSHIFT else KEY_LEFTSHIFT) = B"
  by (auto simp: SHIFT_KEYS_def key_defs)

lemma press_global_shift:
  assumes "A \<in> set SHIFT_KEYS" "A \<noteq> B"
    "(if A = KEY_LEFTSHIFT then KEY_RIGHTSHIFT else KEY_LEFTSHIFT) = B"
  shows "modifiers (on_modifier_press_global s A) B = ModifierState0"
    and "pressed (modifiers (on_modifier_press_global s A) A)"
    and "down_keys (engine (on_modifier_press_global s A)) = insert A (down_keys (engine s) - {B})"
    and "emitted (engine (on_modifier_press_global s A)) =
           emitted (engine s) @ (if B \<in> down_keys (engine s) then [(B, 0)] else [])
             @ (if A \<in> down_keys (engine s) then [] else [(A, 1)])"
  using assms
  by (auto simp: on_modifier_press_global_def force_release_modifier_def Let_def
      set_key_state_eq paint_modifier_eq ModifierState0_def)

lemma mb_press_shift:
  assumes "A \<in> set SHIFT_KEYS" "A \<noteq> B"
    "(if A = KEY_LEFTSHIFT then KEY_RIGHTSHIFT else KEY_LEFTSHIFT) = B"
  shows "mb_modifiers (mb_on_modifier_press m A) B = ModifierState0"
    and "pressed (mb_modifiers (mb_on_modifier_press m A) A)"
    and "down_keys (mb_engine (mb_on_modifier_press m A))
           = insert A (down_keys (mb_engine m) - {B})"
    and "emitted (mb_engine (mb_on_modifier_press m A)) =
           emitted (mb_engine m) @ (if B \<in> down_keys (mb_engine m) then [(B, 0)] else [])
             @ (if A \<in> down_keys (mb_engine m) then [] else [(A, 1)])"
  using assms
  by (auto simp: mb_on_modifier_press_def mb_force_release_modifier_def Let_def
      set_key_state_eq mb_paint_modifier_eq ModifierState0_def)

lemma press_global_other:
  assumes "k \<notin> set SHIFT_KEYS" "k' \<noteq> k"
  shows "modifiers (on_modifier_press_global s k) k' = modifiers s k'"
    and "emitted (engine (on_modifier_press_global s k)) =
           emitted (engine s) @ (if k \<in> down_keys (engine s) then [] else [(k, 1)])"
  using assms
  by (auto simp: on_modifier_press_global_def Let_def set_key_state_eq paint_modifier_eq)

lemma mb_press_other:
  assumes "k \<notin> set SHIFT_KEYS" "k' \<noteq> k"
  shows "mb_modifiers (mb_on_modifier_press m k) k' = mb_modifiers m k'"
    and "emitted (mb_engine (mb_on_modifier_press m k)) =
           emitted (mb_engine m) @ (if k \<in> down_keys (mb_engine m) then [] else [(k, 1)])"
  using assms
  by (auto simp: mb_on_modifier_press_def Let_def set_key_state_eq mb_paint_modifier_eq)

section \<open>The step threshold\<close>

lemma step_threshold_of_eq:
  "step_threshold_of dx dy elapsed =
     28 - min (sqrt (dx * dx + dy * dy) / max elapsed 0.001 / 120) 16"
  unfolding step_threshold_of_def Let_def
  by (simp add: max_def min_def)

lemma speed_nonneg: "0 \<le> sqrt (dx * dx + dy * dy) / max elapsed 0.001"
  by (simp add: max_def)



section \<open>Releasing a modifier\<close>

lemma ModifierState_cleared:
  "(r::ModifierState)\<lparr>pressed := False, latched := False, used_in_combo := False\<rparr>
     = ModifierState0"
  by (simp add: ModifierState0_def)

lemma force_release_modifier_eq:
  "force_release_modifier s k =
     s\<lparr>modifiers := (modifiers s)(k := ModifierState0),
       engine := set_key_state (engine s) k False,
       pressed_class :=
         (if k \<in> modifier_labels s then pressed_class s - {k} else pressed_class s)\<rparr>"
  by (simp add: force_release_modifier_def paint_modifier_eq ModifierState_cleared)

lemma force_release_shifts:
  "fold (\<lambda>k s. force_release_modifier s k) SHIFT_KEYS s =
     s\<lparr>modifiers := (modifiers s)
           (KEY_LEFTSHIFT := ModifierState0, KEY_RIGHTSHIFT := ModifierState0),
       engine := set_key_state (set_key_state (engine s) KEY_LEFTSHIFT False) KEY_RIGHTSHIFT False,
       pressed_class :=
         (if KEY_RIGHTSHIFT \<in> modifier_labels s then
            (if KEY_LEFTSHIFT \<in> modifier_labels s then pressed_class s - {KEY_LEFTSHIFT}
             else pressed_class s) - {KEY_RIGHTSHIFT}
          else (if KEY_LEFTSHIFT \<in> modifier_labels s then pressed_class s - {KEY_LEFTSHIFT}
                else pressed_class s))\<rparr>"
  by (simp add: SHIFT_KEYS_def force_release_modifier_eq)

lemma handle_due:
  assumes "double_tap_due s now"
  shows "handle_shift_double_tap s now =
     (fold (\<lambda>k s. force_release_modifier s k) SHIFT_KEYS s)
       \<lparr>engine := emit_shortcut
           (set_key_state (set_key_state (engine s) KEY_LEFTSHIFT False) KEY_RIGHTSHIFT False)
           (double_shift_shortcut s),
        last_shift_tap_at := 0\<rparr>"
  using assms
  by (simp add: handle_shift_double_tap_def double_tap_due_def Let_def force_release_shifts)

lemma release_global_combo:
  assumes "used_in_combo (modifiers s k)"
  shows "on_modifier_release_global s k now =
     s\<lparr>modifiers := (modifiers s)
           (k := (modifiers s k)\<lparr>pressed := False, used_in_combo := False\<rparr>),
       engine := (if latched (modifiers s k) then engine s else set_key_state (engine s) k False),
       pressed_class :=
         (if \<not> latched (modifiers s k) \<and> k \<in> modifier_labels s
          then pressed_class s - {k} else pressed_class s)\<rparr>"
  using assms
  by (simp add: on_modifier_release_global_def Let_def paint_modifier_eq)

lemma release_global_clean:
  assumes "\<not> used_in_combo (modifiers s k)"
  shows "on_modifier_release_global s k now =
     (if k \<in> set SHIFT_KEYS then handle_shift_double_tap (toggled s k) now else toggled s k)"
  using assms
  by (simp add: on_modifier_release_global_def Let_def paint_modifier_eq toggled_def)

lemma handle_not_due:
  assumes "\<not> double_tap_due s now"
  shows "handle_shift_double_tap s now =
     s\<lparr>last_shift_tap_at := (if double_shift_shortcut_enabled s then now else 0)\<rparr>"
  using assms
  by (auto simp add: handle_shift_double_tap_def double_tap_due_def Let_def)

lemma mb_force_release_modifier_eq:
  "mb_force_release_modifier m k =
     m\<lparr>mb_modifiers := (mb_modifiers m)(k := ModifierState0),
       mb_engine := set_key_state (mb_engine m) k False,
       mb_pressed_class :=
         (if k \<in> mb_modifier_buttons m then mb_pressed_class m - {k} else mb_pressed_class m)\<rparr>"
  by (simp add: mb_force_release_modifier_def mb_paint_modifier_eq ModifierState_cleared)

lemma mb_force_release_shifts:
  "fold (\<lambda>k m. mb_force_release_modifier m k) SHIFT_KEYS m =
     m\<lparr>mb_modifiers := (mb_modifiers m)
           (KEY_LEFTSHIFT := ModifierState0, KEY_RIGHTSHIFT := ModifierState0),
       mb_engine := set_key_state (set_key_state (mb_engine m) KEY_LEFTSHIFT False) KEY_RIGHTSHIFT False,
       mb_pressed_class :=
         (if KEY_RIGHTSHIFT \<in> mb_modifier_buttons m then
            (if KEY_LEFTSHIFT \<in> mb_modifier_buttons m then mb_pressed_class m - {KEY_LEFTSHIFT}
             else mb_pressed_class m) - {KEY_RIGHTSHIFT}
          else (if KEY_LEFTSHIFT \<in> mb_modifier_buttons m then mb_pressed_class m - {KEY_LEFTSHIFT}
                else mb_pressed_class m))\<rparr>"
  by (simp add: SHIFT_KEYS_def mb_force_release_modifier_eq)

lemma mb_handle_due:
  assumes "mb_double_tap_due m now"
  shows "mb_handle_shift_double_tap m now =
     (fold (\<lambda>k m. mb_force_release_modifier m k) SHIFT_KEYS m)
       \<lparr>mb_engine := emit_shortcut
           (set_key_state (set_key_state (mb_engine m) KEY_LEFTSHIFT False) KEY_RIGHTSHIFT False)
           (mb_double_shift_shortcut m),
        mb_last_shift_tap_at := 0\<rparr>"
  using assms
  by (simp add: mb_handle_shift_double_tap_def mb_double_tap_due_def Let_def mb_force_release_shifts)

lemma mb_release_combo:
  assumes "used_in_combo (mb_modifiers m k)"
  shows "mb_on_modifier_release m k now =
     m\<lparr>mb_modifiers := (mb_modifiers m)
           (k := (mb_modifiers m k)\<lparr>pressed := False, used_in_combo := False\<rparr>),
       mb_engine := (if latched (mb_modifiers m k) then mb_engine m else set_key_state (mb_engine m) k False),
       mb_pressed_class :=
         (if \<not> latched (mb_modifiers m k) \<and> k \<in> mb_modifier_buttons m
          then mb_pressed_class m - {k} else mb_pressed_class m)\<rparr>"
  using assms
  by (simp add: mb_on_modifier_release_def Let_def mb_paint_modifier_eq)

lemma mb_release_clean:
  assumes "\<not> used_in_combo (mb_modifiers m k)"
  shows "mb_on_modifier_release m k now =
     (if k \<in> set SHIFT_KEYS then mb_handle_shift_double_tap (mb_toggled m k) now else mb_toggled m k)"
  using assms
  by (simp add: mb_on_modifier_release_def Let_def mb_paint_modifier_eq mb_toggled_def)

lemma mb_handle_not_due:
  assumes "\<not> mb_double_tap_due m now"
  shows "mb_handle_shift_double_tap m now = m\<lparr>mb_last_shift_tap_at := now\<rparr>"
  using assms
  by (auto simp add: mb_handle_shift_double_tap_def mb_double_tap_due_def Let_def)


section \<open>Emitting a shortcut\<close>

lemma fold_tap_key:
  "fold (\<lambda>k e. tap_key e k) ks e =
     e\<lparr>emitted := emitted e @ concat (map (\<lambda>k. [(k, 1), (k, 0)]) ks)\<rparr>"
  by (induction ks arbitrary: e) (simp_all add: tap_key_def)

lemma fold_set_key_state:
  "\<exists>E. fold (\<lambda>k e. set_key_state e k p) ks e =
         e\<lparr>emitted := emitted e @ E,
           down_keys := (if p then down_keys e \<union> set ks else down_keys e - set ks)\<rparr>
       \<and> fst ` set E \<subseteq> set ks"
proof (induction ks arbitrary: e)
  case Nil
  show ?case by (rule exI [of _ "[]"]) simp
next
  case (Cons k ks)
  obtain E where E:
    "fold (\<lambda>k e. set_key_state e k p) ks (set_key_state e k p) =
       (set_key_state e k p)\<lparr>emitted := emitted (set_key_state e k p) @ E,
           down_keys := (if p then down_keys (set_key_state e k p) \<union> set ks
                         else down_keys (set_key_state e k p) - set ks)\<rparr>"
    "fst ` set E \<subseteq> set ks"
    using Cons.IH [of "set_key_state e k p"] by blast
  let ?E0 = "(if p then (if k \<in> down_keys e then [] else [(k, 1)])
           else (if k \<in> down_keys e then [(k, 0::nat)] else []))"
  show ?case
  proof (rule exI [of _ "?E0 @ E"], intro conjI)
    show "fold (\<lambda>k e. set_key_state e k p) (k # ks) e =
      e\<lparr>emitted := emitted e @ ?E0 @ E,
         down_keys := if p then down_keys e \<union> set (k # ks) else down_keys e - set (k # ks)\<rparr>"
    proof -
      have d1: "down_keys e - {k} - set ks = down_keys e - insert k (set ks)" by blast
      have d2: "insert k (down_keys e) \<union> set ks = down_keys e \<union> insert k (set ks)" by blast
      have "fold (\<lambda>k e. set_key_state e k p) (k # ks) e =
              fold (\<lambda>k e. set_key_state e k p) ks (set_key_state e k p)" by simp
      also have "\<dots> = e\<lparr>emitted := emitted e @ ?E0 @ E,
         down_keys := if p then down_keys e \<union> set (k # ks) else down_keys e - set (k # ks)\<rparr>"
        unfolding E(1) by (cases p; cases "k \<in> down_keys e") (simp_all add: set_key_state_eq d1 d2)
      finally show ?thesis .
    qed
    show "fst ` set (?E0 @ E) \<subseteq> set (k # ks)"
      using E(2) by auto
  qed
qed




lemma emit_shortcut_down:
  "down_keys (emit_shortcut e combo) = down_keys e - {c \<in> set combo. c \<in> set MODIFIER_KEYS}"
proof -
  let ?M = "set MODIFIER_KEYS"
  let ?mods = "filter (\<lambda>c. c \<in> ?M) combo"
  let ?normals = "filter (\<lambda>c. c \<notin> ?M) combo"
  let ?taps = "concat (map (\<lambda>k. [(k, 1::nat), (k, 0)]) (if ?normals \<noteq> [] then ?normals else ?mods))"
  obtain E1 where E1:
    "fold (\<lambda>k e. set_key_state e k True) ?mods e =
       e\<lparr>emitted := emitted e @ E1,
         down_keys := (if True then down_keys e \<union> set ?mods else down_keys e - set ?mods)\<rparr>"
    using fold_set_key_state [of True ?mods e] by blast
  let ?e1 = "fold (\<lambda>k e. set_key_state e k True) ?mods e"
  let ?e2 = "?e1\<lparr>emitted := emitted ?e1 @ ?taps\<rparr>"
  obtain E3 where E3:
    "fold (\<lambda>k e. set_key_state e k False) (rev ?mods) ?e2 =
       ?e2\<lparr>emitted := emitted ?e2 @ E3,
         down_keys := (if False then down_keys ?e2 \<union> set (rev ?mods)
                       else down_keys ?e2 - set (rev ?mods))\<rparr>"
    using fold_set_key_state [of False "rev ?mods" ?e2] by blast
  have eq: "emit_shortcut e combo = fold (\<lambda>k e. set_key_state e k False) (rev ?mods) ?e2"
    by (simp add: emit_shortcut_def Let_def fold_tap_key)
  show ?thesis
    unfolding eq E3 by (auto simp: E1)
qed


section \<open>Taps of a modifier and the double-tap check\<close>

lemma due_toggled [simp]: "double_tap_due (toggled s k) now = double_tap_due s now"
  by (simp add: double_tap_due_def toggled_def)

lemma due_press [simp]: "double_tap_due (on_modifier_press_global s k) now = double_tap_due s now"
  by (simp add: double_tap_due_def on_modifier_press_global_def Let_def
      force_release_modifier_eq paint_modifier_eq)

lemma release_clean_shift_tap_at:
  assumes "k \<in> set SHIFT_KEYS" "\<not> used_in_combo (modifiers s k)"
  shows "on_modifier_release_global s k now = handle_shift_double_tap (toggled s k) now"
    and "last_shift_tap_at (on_modifier_release_global s k now) =
           (if double_tap_due s now then 0
            else if double_shift_shortcut_enabled s then now else 0)"
proof -
  show a: "on_modifier_release_global s k now = handle_shift_double_tap (toggled s k) now"
    using assms by (simp add: release_global_clean)
  show "last_shift_tap_at (on_modifier_release_global s k now) =
           (if double_tap_due s now then 0
            else if double_shift_shortcut_enabled s then now else 0)"
  proof (cases "double_tap_due s now")
    case True
    then have "double_tap_due (toggled s k) now" by simp
    from handle_due [OF this] show ?thesis using True by (simp add: a)
  next
    case False
    then have "\<not> double_tap_due (toggled s k) now" by simp
    from handle_not_due [OF this] show ?thesis using False by (simp add: a toggled_def)
  qed
qed

lemma release_combo_tap_at:
  assumes "used_in_combo (modifiers s k)"
  shows "last_shift_tap_at (on_modifier_release_global s k now) = last_shift_tap_at s"
    and "emitted (engine (on_modifier_release_global s k now)) =
           emitted (engine s)
             @ (if \<not> latched (modifiers s k) \<and> k \<in> down_keys (engine s) then [(k, 0)] else [])"
  using assms by (simp_all add: release_global_combo set_key_state_eq)

lemma release_due_state:
  assumes "k \<in> set SHIFT_KEYS" "\<not> used_in_combo (modifiers s k)" "double_tap_due s now"
  shows "modifiers (on_modifier_release_global s k now) KEY_LEFTSHIFT = ModifierState0"
    and "modifiers (on_modifier_release_global s k now) KEY_RIGHTSHIFT = ModifierState0"
    and "last_shift_tap_at (on_modifier_release_global s k now) = 0"
    and "engine (on_modifier_release_global s k now) =
           emit_shortcut
             (set_key_state
                (set_key_state
                   (if latched (modifiers s k) then set_key_state (engine s) k False else engine s)
                   KEY_LEFTSHIFT False)
                KEY_RIGHTSHIFT False)
             (double_shift_shortcut s)"
    and "double_shift_shortcut_enabled (on_modifier_release_global s k now)
           = double_shift_shortcut_enabled s"
    and "KEY_LEFTSHIFT \<notin> down_keys (engine (on_modifier_release_global s k now))"
    and "KEY_RIGHTSHIFT \<notin> down_keys (engine (on_modifier_release_global s k now))"
proof -
  have d: "double_tap_due (toggled s k) now" using assms(3) by simp
  have eq: "on_modifier_release_global s k now = handle_shift_double_tap (toggled s k) now"
    using assms by (simp add: release_global_clean)
  note h = handle_due [OF d]
  show "modifiers (on_modifier_release_global s k now) KEY_LEFTSHIFT = ModifierState0"
    unfolding eq h by (simp add: force_release_shifts key_defs)
  show "modifiers (on_modifier_release_global s k now) KEY_RIGHTSHIFT = ModifierState0"
    unfolding eq h by (simp add: force_release_shifts)
  show "last_shift_tap_at (on_modifier_release_global s k now) = 0"
    unfolding eq h by simp
  show e: "engine (on_modifier_release_global s k now) =
           emit_shortcut
             (set_key_state
                (set_key_state
                   (if latched (modifiers s k) then set_key_state (engine s) k False else engine s)
                   KEY_LEFTSHIFT False)
                KEY_RIGHTSHIFT False)
             (double_shift_shortcut s)"
    unfolding eq h by (simp add: toggled_def)
  show "double_shift_shortcut_enabled (on_modifier_release_global s k now)
           = double_shift_shortcut_enabled s"
    unfolding eq h by (simp add: force_release_shifts toggled_def)
  show "KEY_LEFTSHIFT \<notin> down_keys (engine (on_modifier_release_global s k now))"
    unfolding e emit_shortcut_down by (simp add: set_key_state_eq)
  show "KEY_RIGHTSHIFT \<notin> down_keys (engine (on_modifier_release_global s k now))"
    unfolding e emit_shortcut_down by (simp add: set_key_state_eq)
qed


lemma press_own_state:
  "modifiers (on_modifier_press_global s k) k
     = (modifiers s k)\<lparr>pressed := True, used_in_combo := False\<rparr>"
  by (auto simp: on_modifier_press_global_def Let_def force_release_modifier_eq paint_modifier_eq
      key_defs)

lemma tap_toggles:
  assumes "k \<notin> set SHIFT_KEYS \<or> \<not> double_tap_due s now"
  shows "\<not> pressed (modifiers (modifier_tap s k now) k)"
    and "latched (modifiers (modifier_tap s k now) k) = (\<not> latched (modifiers s k))"
    and "last_shift_tap_at (modifier_tap s k now) =
           (if k \<in> set SHIFT_KEYS then (if double_shift_shortcut_enabled s then now else 0)
            else last_shift_tap_at s)"
    and "double_shift_shortcut_enabled (modifier_tap s k now) = double_shift_shortcut_enabled s"
    and "double_shift_timeout_ms (modifier_tap s k now) = double_shift_timeout_ms s"
proof -
  let ?p = "on_modifier_press_global s k"
  have clean: "\<not> used_in_combo (modifiers ?p k)" by (simp add: press_own_state)
  have base: "last_shift_tap_at ?p = last_shift_tap_at s"
     "double_shift_shortcut_enabled ?p = double_shift_shortcut_enabled s"
     "double_shift_timeout_ms ?p = double_shift_timeout_ms s"
    by (simp_all add: on_modifier_press_global_def Let_def force_release_modifier_eq paint_modifier_eq)
  have eq: "modifier_tap s k now =
      (if k \<in> set SHIFT_KEYS
       then (toggled ?p k)\<lparr>last_shift_tap_at := (if double_shift_shortcut_enabled s then now else 0)\<rparr>
       else toggled ?p k)"
  proof (cases "k \<in> set SHIFT_KEYS")
    case True
    then have "\<not> double_tap_due (toggled ?p k) now" using assms by simp
    from handle_not_due [OF this] show ?thesis
      unfolding modifier_tap_def release_global_clean [OF clean] using True
      by (simp add: toggled_def base)
  next
    case False
    then show ?thesis unfolding modifier_tap_def release_global_clean [OF clean] by simp
  qed
  show "\<not> pressed (modifiers (modifier_tap s k now) k)"
    by (simp add: eq toggled_def)
  show "latched (modifiers (modifier_tap s k now) k) = (\<not> latched (modifiers s k))"
    by (simp add: eq toggled_def press_own_state)
  show "last_shift_tap_at (modifier_tap s k now) =
           (if k \<in> set SHIFT_KEYS then (if double_shift_shortcut_enabled s then now else 0)
            else last_shift_tap_at s)"
    by (simp add: eq toggled_def base)
  show "double_shift_shortcut_enabled (modifier_tap s k now) = double_shift_shortcut_enabled s"
    by (simp add: eq toggled_def base)
  show "double_shift_timeout_ms (modifier_tap s k now) = double_shift_timeout_ms s"
    by (simp add: eq toggled_def base)
qed

lemma tap_due_clears:
  assumes "k \<in> set SHIFT_KEYS" "double_tap_due s now"
  shows "modifiers (modifier_tap s k now) KEY_LEFTSHIFT = ModifierState0"
    and "modifiers (modifier_tap s k now) KEY_RIGHTSHIFT = ModifierState0"
proof -
  let ?p = "on_modifier_press_global s k"
  have clean: "\<not> used_in_combo (modifiers ?p k)" by (simp add: press_own_state)
  have d: "double_tap_due ?p now" using assms(2) by simp
  show "modifiers (modifier_tap s k now) KEY_LEFTSHIFT = ModifierState0"
    unfolding modifier_tap_def by (rule release_due_state(1) [OF assms(1) clean d])
  show "modifiers (modifier_tap s k now) KEY_RIGHTSHIFT = ModifierState0"
    unfolding modifier_tap_def by (rule release_due_state(2) [OF assms(1) clean d])
qed


section \<open>Taps of a modifier in MutterBoard\<close>

lemma mb_due_toggled [simp]: "mb_double_tap_due (mb_toggled m k) now = mb_double_tap_due m now"
  by (simp add: mb_double_tap_due_def mb_toggled_def)

lemma mb_due_press [simp]: "mb_double_tap_due (mb_on_modifier_press m k) now = mb_double_tap_due m now"
  by (simp add: mb_double_tap_due_def mb_on_modifier_press_def Let_def
      mb_force_release_modifier_eq mb_paint_modifier_eq)

lemma mb_release_clean_shift_tap_at:
  assumes "k \<in> set SHIFT_KEYS" "\<not> used_in_combo (mb_modifiers m k)"
  shows "mb_on_modifier_release m k now = mb_handle_shift_double_tap (mb_toggled m k) now"
    and "mb_last_shift_tap_at (mb_on_modifier_release m k now) =
           (if mb_double_tap_due m now then 0 else now)"
proof -
  show a: "mb_on_modifier_release m k now = mb_handle_shift_double_tap (mb_toggled m k) now"
    using assms by (simp add: mb_release_clean)
  show "mb_last_shift_tap_at (mb_on_modifier_release m k now) =
           (if mb_double_tap_due m now then 0 else now)"
  proof (cases "mb_double_tap_due m now")
    case True
    then have "mb_double_tap_due (mb_toggled m k) now" by simp
    from mb_handle_due [OF this] show ?thesis using True by (simp add: a)
  next
    case False
    then have "\<not> mb_double_tap_due (mb_toggled m k) now" by simp
    from mb_handle_not_due [OF this] show ?thesis using False by (simp add: a mb_toggled_def)
  qed
qed

lemma mb_release_combo_tap_at:
  assumes "used_in_combo (mb_modifiers m k)"
  shows "mb_last_shift_tap_at (mb_on_modifier_release m k now) = mb_last_shift_tap_at m"
    and "emitted (mb_engine (mb_on_modifier_release m k now)) =
           emitted (mb_engine m)
             @ (if \<not> latched (mb_modifiers m k) \<and> k \<in> down_keys (mb_engine m) then [(k, 0)] else [])"
  using assms by (simp_all add: mb_release_combo set_key_state_eq)

lemma mb_release_due_state:
  assumes "k \<in> set SHIFT_KEYS" "\<not> used_in_combo (mb_modifiers m k)" "mb_double_tap_due m now"
  shows "mb_modifiers (mb_on_modifier_release m k now) KEY_LEFTSHIFT = ModifierState0"
    and "mb_modifiers (mb_on_modifier_release m k now) KEY_RIGHTSHIFT = ModifierState0"
    and "mb_last_shift_tap_at (mb_on_modifier_release m k now) = 0"
    and "mb_engine (mb_on_modifier_release m k now) =
           emit_shortcut
             (set_key_state
                (set_key_state
                   (if latched (mb_modifiers m k) then set_key_state (mb_engine m) k False else mb_engine m)
                   KEY_LEFTSHIFT False)
                KEY_RIGHTSHIFT False)
             (mb_double_shift_shortcut m)"
    and "KEY_LEFTSHIFT \<notin> down_keys (mb_engine (mb_on_modifier_release m k now))"
    and "KEY_RIGHTSHIFT \<notin> down_keys (mb_engine (mb_on_modifier_release m k now))"
proof -
  have d: "mb_double_tap_due (mb_toggled m k) now" using assms(3) by simp
  have eq: "mb_on_modifier_release m k now = mb_handle_shift_double_tap (mb_toggled m k) now"
    using assms by (simp add: mb_release_clean)
  note h = mb_handle_due [OF d]
  show "mb_modifiers (mb_on_modifier_release m k now) KEY_LEFTSHIFT = ModifierState0"
    unfolding eq h by (simp add: mb_force_release_shifts key_defs)
  show "mb_modifiers (mb_on_modifier_release m k now) KEY_RIGHTSHIFT = ModifierState0"
    unfolding eq h by (simp add: mb_force_release_shifts)
  show "mb_last_shift_tap_at (mb_on_modifier_release m k now) = 0"
    unfolding eq h by simp
  show e: "mb_engine (mb_on_modifier_release m k now) =
           emit_shortcut
             (set_key_state
                (set_key_state
                   (if latched (mb_modifiers m k) then set_key_state (mb_engine m) k False else mb_engine m)
                   KEY_LEFTSHIFT False)
                KEY_RIGHTSHIFT False)
             (mb_double_shift_shortcut m)"
    unfolding eq h by (simp add: mb_toggled_def)
  show "KEY_LEFTSHIFT \<notin> down_keys (mb_engine (mb_on_modifier_release m k now))"
    unfolding e emit_shortcut_down by (simp add: set_key_state_eq)
  show "KEY_RIGHTSHIFT \<notin> down_keys (mb_engine (mb_on_modifier_release m k now))"
    unfolding e emit_shortcut_down by (simp add: set_key_state_eq)
qed


lemma mb_press_own_state:
  "mb_modifiers (mb_on_modifier_press m k) k
     = (mb_modifiers m k)\<lparr>pressed := True, used_in_combo := False\<rparr>"
  by (auto simp: mb_on_modifier_press_def Let_def mb_force_release_modifier_eq mb_paint_modifier_eq
      key_defs)

lemma mb_tap_toggles:
  assumes "k \<notin> set SHIFT_KEYS \<or> \<not> mb_double_tap_due m now"
  shows "\<not> pressed (mb_modifiers (mb_modifier_tap m k now) k)"
    and "latched (mb_modifiers (mb_modifier_tap m k now) k) = (\<not> latched (mb_modifiers m k))"
    and "mb_last_shift_tap_at (mb_modifier_tap m k now) =
           (if k \<in> set SHIFT_KEYS then now else mb_last_shift_tap_at m)"
    and "mb_double_shift_timeout_ms (mb_modifier_tap m k now) = mb_double_shift_timeout_ms m"
proof -
  let ?p = "mb_on_modifier_press m k"
  have clean: "\<not> used_in_combo (mb_modifiers ?p k)" by (simp add: mb_press_own_state)
  have base: "mb_last_shift_tap_at ?p = mb_last_shift_tap_at m"
     "mb_double_shift_timeout_ms ?p = mb_double_shift_timeout_ms m"
    by (simp_all add: mb_on_modifier_press_def Let_def mb_force_release_modifier_eq mb_paint_modifier_eq)
  have eq: "mb_modifier_tap m k now =
      (if k \<in> set SHIFT_KEYS
       then (mb_toggled ?p k)\<lparr>mb_last_shift_tap_at := now\<rparr>
       else mb_toggled ?p k)"
  proof (cases "k \<in> set SHIFT_KEYS")
    case True
    then have "\<not> mb_double_tap_due (mb_toggled ?p k) now" using assms by simp
    from mb_handle_not_due [OF this] show ?thesis
      unfolding mb_modifier_tap_def mb_release_clean [OF clean] using True
      by (simp add: mb_toggled_def base)
  next
    case False
    then show ?thesis unfolding mb_modifier_tap_def mb_release_clean [OF clean] by simp
  qed
  show "\<not> pressed (mb_modifiers (mb_modifier_tap m k now) k)"
    by (simp add: eq mb_toggled_def)
  show "latched (mb_modifiers (mb_modifier_tap m k now) k) = (\<not> latched (mb_modifiers m k))"
    by (simp add: eq mb_toggled_def mb_press_own_state)
  show "mb_last_shift_tap_at (mb_modifier_tap m k now) =
           (if k \<in> set SHIFT_KEYS then now else mb_last_shift_tap_at m)"
    by (simp add: eq mb_toggled_def base)
  show "mb_double_shift_timeout_ms (mb_modifier_tap m k now) = mb_double_shift_timeout_ms m"
    by (simp add: eq mb_toggled_def base)
qed

lemma mb_tap_due_clears:
  assumes "k \<in> set SHIFT_KEYS" "mb_double_tap_due m now"
  shows "mb_modifiers (mb_modifier_tap m k now) KEY_LEFTSHIFT = ModifierState0"
    and "mb_modifiers (mb_modifier_tap m k now) KEY_RIGHTSHIFT = ModifierState0"
proof -
  let ?p = "mb_on_modifier_press m k"
  have clean: "\<not> used_in_combo (mb_modifiers ?p k)" by (simp add: mb_press_own_state)
  have d: "mb_double_tap_due ?p now" using assms(2) by simp
  show "mb_modifiers (mb_modifier_tap m k now) KEY_LEFTSHIFT = ModifierState0"
    unfolding mb_modifier_tap_def by (rule mb_release_due_state(1) [OF assms(1) clean d])
  show "mb_modifiers (mb_modifier_tap m k now) KEY_RIGHTSHIFT = ModifierState0"
    unfolding mb_modifier_tap_def by (rule mb_release_due_state(2) [OF assms(1) clean d])
qed



section \<open>Releasing the one-shot modifiers\<close>

lemma one_shot_fold:
  assumes "distinct ks"
  shows "fold (\<lambda>k s.
             if latched (modifiers s k) \<and> \<not> pressed (modifiers s k) then
               paint_modifier
                 (s\<lparr>modifiers := (modifiers s)(k := (modifiers s k)\<lparr>latched := False\<rparr>),
                    engine := set_key_state (engine s) k False\<rparr>)
                 k False
             else s) ks s
     = s\<lparr>modifiers :=
           (\<lambda>k. if k \<in> set ks \<and> latched (modifiers s k) \<and> \<not> pressed (modifiers s k)
                then (modifiers s k)\<lparr>latched := False\<rparr> else modifiers s k),
         engine :=
           (engine s)\<lparr>emitted := emitted (engine s) @
               map (\<lambda>k. (k, 0))
                 (filter (\<lambda>k. latched (modifiers s k) \<and> \<not> pressed (modifiers s k)
                              \<and> k \<in> down_keys (engine s)) ks),
             down_keys := down_keys (engine s)
               - {k \<in> set ks. latched (modifiers s k) \<and> \<not> pressed (modifiers s k)}\<rparr>,
         pressed_class := pressed_class s
           - {k \<in> set ks. latched (modifiers s k) \<and> \<not> pressed (modifiers s k)
                \<and> k \<in> modifier_labels s}\<rparr>"
  using assms
proof (induction ks arbitrary: s)
  case Nil
  show ?case by simp
next
  case (Cons a ks)
  let ?F = "\<lambda>k s.
             if latched (modifiers s k) \<and> \<not> pressed (modifiers s k) then
               paint_modifier
                 (s\<lparr>modifiers := (modifiers s)(k := (modifiers s k)\<lparr>latched := False\<rparr>),
                    engine := set_key_state (engine s) k False\<rparr>)
                 k False
             else s"
  from Cons.prems have a: "a \<notin> set ks" and d: "distinct ks" by simp_all
  have step: "fold ?F (a # ks) s = fold ?F ks (?F a s)" by simp
  show ?case
  proof (cases "latched (modifiers s a) \<and> \<not> pressed (modifiers s a)")
    case False
    then have Fa: "?F a s = s" by auto
    have m: "(\<lambda>k. if k \<in> set ks \<and> latched (modifiers s k) \<and> \<not> pressed (modifiers s k)
                then (modifiers s k)\<lparr>latched := False\<rparr> else modifiers s k)
           = (\<lambda>k. if k \<in> set (a # ks) \<and> latched (modifiers s k) \<and> \<not> pressed (modifiers s k)
                then (modifiers s k)\<lparr>latched := False\<rparr> else modifiers s k)"
      using False by auto
    have s1: "{k \<in> set ks. latched (modifiers s k) \<and> \<not> pressed (modifiers s k)}
           = {k \<in> set (a # ks). latched (modifiers s k) \<and> \<not> pressed (modifiers s k)}"
      using False by auto
    have s2: "{k \<in> set ks. latched (modifiers s k) \<and> \<not> pressed (modifiers s k)
                \<and> k \<in> modifier_labels s}
           = {k \<in> set (a # ks). latched (modifiers s k) \<and> \<not> pressed (modifiers s k)
                \<and> k \<in> modifier_labels s}"
      using False by auto
    have f: "filter (\<lambda>k. latched (modifiers s k) \<and> \<not> pressed (modifiers s k)
                              \<and> k \<in> down_keys (engine s)) (a # ks)
           = filter (\<lambda>k. latched (modifiers s k) \<and> \<not> pressed (modifiers s k)
                              \<and> k \<in> down_keys (engine s)) ks"
      using False by auto
    show ?thesis
      unfolding step Fa Cons.IH [OF d] m s1 s2 f ..
  next
    case True
    let ?t = "?F a s"
    have Fa: "?t = s\<lparr>modifiers := (modifiers s)(a := (modifiers s a)\<lparr>latched := False\<rparr>),
                     engine := set_key_state (engine s) a False,
                     pressed_class := (if a \<in> modifier_labels s then pressed_class s - {a}
                                       else pressed_class s)\<rparr>"
      using True by (simp add: paint_modifier_eq)
    have m: "(\<lambda>k. if k \<in> set ks \<and> latched (modifiers ?t k) \<and> \<not> pressed (modifiers ?t k)
                then (modifiers ?t k)\<lparr>latched := False\<rparr> else modifiers ?t k)
           = (\<lambda>k. if k \<in> set (a # ks) \<and> latched (modifiers s k) \<and> \<not> pressed (modifiers s k)
                then (modifiers s k)\<lparr>latched := False\<rparr> else modifiers s k)"
      unfolding Fa using True a by (auto simp: fun_eq_iff)
    have s1: "down_keys (engine ?t)
                - {k \<in> set ks. latched (modifiers ?t k) \<and> \<not> pressed (modifiers ?t k)}
           = down_keys (engine s)
                - {k \<in> set (a # ks). latched (modifiers s k) \<and> \<not> pressed (modifiers s k)}"
      unfolding Fa using True a by (auto simp: set_key_state_eq)
    have s2: "pressed_class ?t
                - {k \<in> set ks. latched (modifiers ?t k) \<and> \<not> pressed (modifiers ?t k)
                     \<and> k \<in> modifier_labels ?t}
           = pressed_class s
                - {k \<in> set (a # ks). latched (modifiers s k) \<and> \<not> pressed (modifiers s k)
                     \<and> k \<in> modifier_labels s}"
      unfolding Fa using True a by auto
    have f0: "filter (\<lambda>k. latched (modifiers ?t k) \<and> \<not> pressed (modifiers ?t k)
                              \<and> k \<in> down_keys (engine ?t)) ks
           = filter (\<lambda>k. latched (modifiers s k) \<and> \<not> pressed (modifiers s k)
                              \<and> k \<in> down_keys (engine s)) ks"
      unfolding Fa using a by (intro filter_cong) (auto simp: set_key_state_eq)
    have f: "emitted (engine ?t) @
               map (\<lambda>k. (k, 0::nat))
                 (filter (\<lambda>k. latched (modifiers ?t k) \<and> \<not> pressed (modifiers ?t k)
                              \<and> k \<in> down_keys (engine ?t)) ks)
           = emitted (engine s) @
               map (\<lambda>k. (k, 0))
                 (filter (\<lambda>k. latched (modifiers s k) \<and> \<not> pressed (modifiers s k)
                              \<and> k \<in> down_keys (engine s)) (a # ks))"
      unfolding f0 unfolding Fa using True by (simp add: set_key_state_eq)
    have "fold ?F ks ?t = ?t\<lparr>modifiers :=
           (\<lambda>k. if k \<in> set ks \<and> latched (modifiers ?t k) \<and> \<not> pressed (modifiers ?t k)
                then (modifiers ?t k)\<lparr>latched := False\<rparr> else modifiers ?t k),
         engine :=
           (engine ?t)\<lparr>emitted := emitted (engine ?t) @
               map (\<lambda>k. (k, 0))
                 (filter (\<lambda>k. latched (modifiers ?t k) \<and> \<not> pressed (modifiers ?t k)
                              \<and> k \<in> down_keys (engine ?t)) ks),
             down_keys := down_keys (engine ?t)
               - {k \<in> set ks. latched (modifiers ?t k) \<and> \<not> pressed (modifiers ?t k)}\<rparr>,
         pressed_class := pressed_class ?t
           - {k \<in> set ks. latched (modifiers ?t k) \<and> \<not> pressed (modifiers ?t k)
                \<and> k \<in> modifier_labels ?t}\<rparr>"
      by (rule Cons.IH [OF d])
    also have "\<dots> = s\<lparr>modifiers :=
           (\<lambda>k. if k \<in> set (a # ks) \<and> latched (modifiers s k) \<and> \<not> pressed (modifiers s k)
                then (modifiers s k)\<lparr>latched := False\<rparr> else modifiers s k),
         engine :=
           (engine s)\<lparr>emitted := emitted (engine s) @
               map (\<lambda>k. (k, 0))
                 (filter (\<lambda>k. latched (modifiers s k) \<and> \<not> pressed (modifiers s k)
                              \<and> k \<in> down_keys (engine s)) (a # ks)),
             down_keys := down_keys (engine s)
               - {k \<in> set (a # ks). latched (modifiers s k) \<and> \<not> pressed (modifiers s k)}\<rparr>,
         pressed_class := pressed_class s
           - {k \<in> set (a # ks). latched (modifiers s k) \<and> \<not> pressed (modifiers s k)
                \<and> k \<in> modifier_labels s}\<rparr>"
      unfolding m s1 s2 f unfolding Fa by (simp add: set_key_state_eq)
    finally show ?thesis unfolding step .
  qed
qed

lemma release_one_shot_modifiers_eq:
  "release_one_shot_modifiers s
     = s\<lparr>modifiers :=
           (\<lambda>k. if k \<in> set MODIFIER_KEYS \<and> latched (modifiers s k) \<and> \<not> pressed (modifiers s k)
                then (modifiers s k)\<lparr>latched := False\<rparr> else modifiers s k),
         engine :=
           (engine s)\<lparr>emitted := emitted (engine s) @
               map (\<lambda>k. (k, 0))
                 (filter (\<lambda>k. latched (modifiers s k) \<and> \<not> pressed (modifiers s k)
                              \<and> k \<in> down_keys (engine s)) MODIFIER_KEYS),
             down_keys := down_keys (engine s)
               - {k \<in> set MODIFIER_KEYS. latched (modifiers s k) \<and> \<not> pressed (modifiers s k)}\<rparr>,
         pressed_class := pressed_class s
           - {k \<in> set MODIFIER_KEYS. latched (modifiers s k) \<and> \<not> pressed (modifiers s k)
                \<and> k \<in> modifier_labels s}\<rparr>"
  unfolding release_one_shot_modifiers_def
  by (rule one_shot_fold) (simp add: MODIFIER_KEYS_def key_defs)

lemma mb_one_shot_fold:
  assumes "distinct ks"
  shows "fold (\<lambda>k m.
             if latched (mb_modifiers m k) \<and> \<not> pressed (mb_modifiers m k) then
               mb_paint_modifier
                 (m\<lparr>mb_modifiers := (mb_modifiers m)(k := (mb_modifiers m k)\<lparr>latched := False\<rparr>),
                    mb_engine := set_key_state (mb_engine m) k False\<rparr>)
                 k False
             else m) ks m
     = m\<lparr>mb_modifiers :=
           (\<lambda>k. if k \<in> set ks \<and> latched (mb_modifiers m k) \<and> \<not> pressed (mb_modifiers m k)
                then (mb_modifiers m k)\<lparr>latched := False\<rparr> else mb_modifiers m k),
         mb_engine :=
           (mb_engine m)\<lparr>emitted := emitted (mb_engine m) @
               map (\<lambda>k. (k, 0))
                 (filter (\<lambda>k. latched (mb_modifiers m k) \<and> \<not> pressed (mb_modifiers m k)
                              \<and> k \<in> down_keys (mb_engine m)) ks),
             down_keys := down_keys (mb_engine m)
               - {k \<in> set ks. latched (mb_modifiers m k) \<and> \<not> pressed (mb_modifiers m k)}\<rparr>,
         mb_pressed_class := mb_pressed_class m
           - {k \<in> set ks. latched (mb_modifiers m k) \<and> \<not> pressed (mb_modifiers m k)
                \<and> k \<in> mb_modifier_buttons m}\<rparr>"
  using assms
proof (induction ks arbitrary: m)
  case Nil
  show ?case by simp
next
  case (Cons a ks)
  let ?F = "\<lambda>k m.
             if latched (mb_modifiers m k) \<and> \<not> pressed (mb_modifiers m k) then
               mb_paint_modifier
                 (m\<lparr>mb_modifiers := (mb_modifiers m)(k := (mb_modifiers m k)\<lparr>latched := False\<rparr>),
                    mb_engine := set_key_state (mb_engine m) k False\<rparr>)
                 k False
             else m"
  from Cons.prems have a: "a \<notin> set ks" and d: "distinct ks" by simp_all
  have step: "fold ?F (a # ks) m = fold ?F ks (?F a m)" by simp
  show ?case
  proof (cases "latched (mb_modifiers m a) \<and> \<not> pressed (mb_modifiers m a)")
    case False
    then have Fa: "?F a m = m" by auto
    have m: "(\<lambda>k. if k \<in> set ks \<and> latched (mb_modifiers m k) \<and> \<not> pressed (mb_modifiers m k)
                then (mb_modifiers m k)\<lparr>latched := False\<rparr> else mb_modifiers m k)
           = (\<lambda>k. if k \<in> set (a # ks) \<and> latched (mb_modifiers m k) \<and> \<not> pressed (mb_modifiers m k)
                then (mb_modifiers m k)\<lparr>latched := False\<rparr> else mb_modifiers m k)"
      using False by auto
    have s1: "{k \<in> set ks. latched (mb_modifiers m k) \<and> \<not> pressed (mb_modifiers m k)}
           = {k \<in> set (a # ks). latched (mb_modifiers m k) \<and> \<not> pressed (mb_modifiers m k)}"
      using False by auto
    have s2: "{k \<in> set ks. latched (mb_modifiers m k) \<and> \<not> pressed (mb_modifiers m k)
                \<and> k \<in> mb_modifier_buttons m}
           = {k \<in> set (a # ks). latched (mb_modifiers m k) \<and> \<not> pressed (mb_modifiers m k)
                \<and> k \<in> mb_modifier_buttons m}"
      using False by auto
    have f: "filter (\<lambda>k. latched (mb_modifiers m k) \<and> \<not> pressed (mb_modifiers m k)
                              \<and> k \<in> down_keys (mb_engine m)) (a # ks)
           = filter (\<lambda>k. latched (mb_modifiers m k) \<and> \<not> pressed (mb_modifiers m k)
                              \<and> k \<in> down_keys (mb_engine m)) ks"
      using False by auto
    show ?thesis
      unfolding step Fa Cons.IH [OF d] m s1 s2 f ..
  next
    case True
    let ?t = "?F a m"
    have Fa: "?t = m\<lparr>mb_modifiers := (mb_modifiers m)(a := (mb_modifiers m a)\<lparr>latched := False\<rparr>),
                     mb_engine := set_key_state (mb_engine m) a False,
                     mb_pressed_class := (if a \<in> mb_modifier_buttons m then mb_pressed_class m - {a}
                                       else mb_pressed_class m)\<rparr>"
      using True by (simp add: mb_paint_modifier_eq)
    have m: "(\<lambda>k. if k \<in> set ks \<and> latched (mb_modifiers ?t k) \<and> \<not> pressed (mb_modifiers ?t k)
                then (mb_modifiers ?t k)\<lparr>latched := False\<rparr> else mb_modifiers ?t k)
           = (\<lambda>k. if k \<in> set (a # ks) \<and> latched (mb_modifiers m k) \<and> \<not> pressed (mb_modifiers m k)
                then (mb_modifiers m k)\<lparr>latched := False\<rparr> else mb_modifiers m k)"
      unfolding Fa using True a by (auto simp: fun_eq_iff)
    have s1: "down_keys (mb_engine ?t)
                - {k \<in> set ks. latched (mb_modifiers ?t k) \<and> \<not> pressed (mb_modifiers ?t k)}
           = down_keys (mb_engine m)
                - {k \<in> set (a # ks). latched (mb_modifiers m k) \<and> \<not> pressed (mb_modifiers m k)}"
      unfolding Fa using True a by (auto simp: set_key_state_eq)
    have s2: "mb_pressed_class ?t
                - {k \<in> set ks. latched (mb_modifiers ?t k) \<and> \<not> pressed (mb_modifiers ?t k)
                     \<and> k \<in> mb_modifier_buttons ?t}
           = mb_pressed_class m
                - {k \<in> set (a # ks). latched (mb_modifiers m k) \<and> \<not> pressed (mb_modifiers m k)
                     \<and> k \<in> mb_modifier_buttons m}"
      unfolding Fa using True a by auto
    have f0: "filter (\<lambda>k. latched (mb_modifiers ?t k) \<and> \<not> pressed (mb_modifiers ?t k)
                              \<and> k \<in> down_keys (mb_engine ?t)) ks
           = filter (\<lambda>k. latched (mb_modifiers m k) \<and> \<not> pressed (mb_modifiers m k)
                              \<and> k \<in> down_keys (mb_engine m)) ks"
      unfolding Fa using a by (intro filter_cong) (auto simp: set_key_state_eq)
    have f: "emitted (mb_engine ?t) @
               map (\<lambda>k. (k, 0::nat))
                 (filter (\<lambda>k. latched (mb_modifiers ?t k) \<and> \<not> pressed (mb_modifiers ?t k)
                              \<and> k \<in> down_keys (mb_engine ?t)) ks)
           = emitted (mb_engine m) @
               map (\<lambda>k. (k, 0))
                 (filter (\<lambda>k. latched (mb_modifiers m k) \<and> \<not> pressed (mb_modifiers m k)
                              \<and> k \<in> down_keys (mb_engine m)) (a # ks))"
      unfolding f0 unfolding Fa using True by (simp add: set_key_state_eq)
    have "fold ?F ks ?t = ?t\<lparr>mb_modifiers :=
           (\<lambda>k. if k \<in> set ks \<and> latched (mb_modifiers ?t k) \<and> \<not> pressed (mb_modifiers ?t k)
                then (mb_modifiers ?t k)\<lparr>latched := False\<rparr> else mb_modifiers ?t k),
         mb_engine :=
           (mb_engine ?t)\<lparr>emitted := emitted (mb_engine ?t) @
               map (\<lambda>k. (k, 0))
                 (filter (\<lambda>k. latched (mb_modifiers ?t k) \<and> \<not> pressed (mb_modifiers ?t k)
                              \<and> k \<in> down_keys (mb_engine ?t)) ks),
             down_keys := down_keys (mb_engine ?t)
               - {k \<in> set ks. latched (mb_modifiers ?t k) \<and> \<not> pressed (mb_modifiers ?t k)}\<rparr>,
         mb_pressed_class := mb_pressed_class ?t
           - {k \<in> set ks. latched (mb_modifiers ?t k) \<and> \<not> pressed (mb_modifiers ?t k)
                \<and> k \<in> mb_modifier_buttons ?t}\<rparr>"
      by (rule Cons.IH [OF d])
    also have "\<dots> = m\<lparr>mb_modifiers :=
           (\<lambda>k. if k \<in> set (a # ks) \<and> latched (mb_modifiers m k) \<and> \<not> pressed (mb_modifiers m k)
                then (mb_modifiers m k)\<lparr>latched := False\<rparr> else mb_modifiers m k),
         mb_engine :=
           (mb_engine m)\<lparr>emitted := emitted (mb_engine m) @
               map (\<lambda>k. (k, 0))
                 (filter (\<lambda>k. latched (mb_modifiers m k) \<and> \<not> pressed (mb_modifiers m k)
                              \<and> k \<in> down_keys (mb_engine m)) (a # ks)),
             down_keys := down_keys (mb_engine m)
               - {k \<in> set (a # ks). latched (mb_modifiers m k) \<and> \<not> pressed (mb_modifiers m k)}\<rparr>,
         mb_pressed_class := mb_pressed_class m
           - {k \<in> set (a # ks). latched (mb_modifiers m k) \<and> \<not> pressed (mb_modifiers m k)
                \<and> k \<in> mb_modifier_buttons m}\<rparr>"
      unfolding m s1 s2 f unfolding Fa by (simp add: set_key_state_eq)
    finally show ?thesis unfolding step .
  qed
qed

lemma mb_release_one_shot_modifiers_eq:
  "mb_release_one_shot_modifiers m
     = m\<lparr>mb_modifiers :=
           (\<lambda>k. if k \<in> set MODIFIER_KEYS \<and> latched (mb_modifiers m k) \<and> \<not> pressed (mb_modifiers m k)
                then (mb_modifiers m k)\<lparr>latched := False\<rparr> else mb_modifiers m k),
         mb_engine :=
           (mb_engine m)\<lparr>emitted := emitted (mb_engine m) @
               map (\<lambda>k. (k, 0))
                 (filter (\<lambda>k. latched (mb_modifiers m k) \<and> \<not> pressed (mb_modifiers m k)
                              \<and> k \<in> down_keys (mb_engine m)) MODIFIER_KEYS),
             down_keys := down_keys (mb_engine m)
               - {k \<in> set MODIFIER_KEYS. latched (mb_modifiers m k) \<and> \<not> pressed (mb_modifiers m k)}\<rparr>,
         mb_pressed_class := mb_pressed_class m
           - {k \<in> set MODIFIER_KEYS. latched (mb_modifiers m k) \<and> \<not> pressed (mb_modifiers m k)
                \<and> k \<in> mb_modifier_buttons m}\<rparr>"
  unfolding mb_release_one_shot_modifiers_def
  by (rule mb_one_shot_fold) (simp add: MODIFIER_KEYS_def key_defs)


section \<open>What the helpers of the touch handlers leave unchanged\<close>



lemma cancel_space_long_press_frame:
  "modifiers (cancel_space_long_press s t) = modifiers s"
  "engine (cancel_space_long_press s t) = engine s"
  "touch_states (cancel_space_long_press s t) = touch_states s"
  "modifier_labels (cancel_space_long_press s t) = modifier_labels s"
  "key_widgets (cancel_space_long_press s t) = key_widgets s"
  "pressed_class (cancel_space_long_press s t) = pressed_class s"
  "key_press_count (cancel_space_long_press s t) = key_press_count s"
  "repeat_states (cancel_space_long_press s t) = repeat_states s"
  "key_rects (cancel_space_long_press s t) = key_rects s"
  "cursor_mode_class (cancel_space_long_press s t) = cursor_mode_class s"
  by (simp_all add: cancel_space_long_press_def split: option.splits)



section \<open>The end of a touch point on a regular key or on Space\<close>




section \<open>The release of a regular button in MutterBoard\<close>




section \<open>The begin of a touch point on a regular key\<close>







section \<open>The one-shot release in a form that evaluates\<close>

lemma release_one_shot_modifiers_code:
  "release_one_shot_modifiers s
     = s\<lparr>modifiers :=
           (\<lambda>k. if k \<in> set MODIFIER_KEYS \<and> latched (modifiers s k) \<and> \<not> pressed (modifiers s k)
                then (modifiers s k)\<lparr>latched := False\<rparr> else modifiers s k),
         engine :=
           (engine s)\<lparr>emitted := emitted (engine s) @
               map (\<lambda>k. (k, 0))
                 (filter (\<lambda>k. latched (modifiers s k) \<and> \<not> pressed (modifiers s k)
                              \<and> k \<in> down_keys (engine s)) MODIFIER_KEYS),
             down_keys := down_keys (engine s)
               - set (filter (\<lambda>k. latched (modifiers s k) \<and> \<not> pressed (modifiers s k))
                        MODIFIER_KEYS)\<rparr>,
         pressed_class := pressed_class s
           - set (filter (\<lambda>k. latched (modifiers s k) \<and> \<not> pressed (modifiers s k)
                              \<and> k \<in> modifier_labels s) MODIFIER_KEYS)\<rparr>"
  unfolding release_one_shot_modifiers_eq set_filter ..

lemma mb_release_one_shot_modifiers_code:
  "mb_release_one_shot_modifiers m
     = m\<lparr>mb_modifiers :=
           (\<lambda>k. if k \<in> set MODIFIER_KEYS \<and> latched (mb_modifiers m k)
                     \<and> \<not> pressed (mb_modifiers m k)
                then (mb_modifiers m k)\<lparr>latched := False\<rparr> else mb_modifiers m k),
         mb_engine :=
           (mb_engine m)\<lparr>emitted := emitted (mb_engine m) @
               map (\<lambda>k. (k, 0))
                 (filter (\<lambda>k. latched (mb_modifiers m k) \<and> \<not> pressed (mb_modifiers m k)
                              \<and> k \<in> down_keys (mb_engine m)) MODIFIER_KEYS),
             down_keys := down_keys (mb_engine m)
               - set (filter (\<lambda>k. latched (mb_modifiers m k) \<and> \<not> pressed (mb_modifiers m k))
                        MODIFIER_KEYS)\<rparr>,
         mb_pressed_class := mb_pressed_class m
           - set (filter (\<lambda>k. latched (mb_modifiers m k) \<and> \<not> pressed (mb_modifiers m k)
                              \<and> k \<in> mb_modifier_buttons m) MODIFIER_KEYS)\<rparr>"
  unfolding mb_release_one_shot_modifiers_eq set_filter ..

section \<open>Evaluating the handlers on the example layout\<close>

lemmas qb_eval =
  Let_def on_input_begin_def on_input_end_def on_input_update_def
  on_modifier_press_touch_def on_modifier_press_global_def on_modifier_release_touch_def
  on_modifier_release_global_def handle_shift_double_tap_def force_release_modifier_eq
  release_one_shot_modifiers_code emit_shortcut_def
  update_shift_labels_def mark_used_in_combo_def stop_all_other_repeats_def
  start_repeat_def cancel_repeat_def timeout_add_def source_remove_def tap_key_def
  update_visual_def begin_space_tracking_def finish_space_tracking_def
  cancel_space_long_press_def set_space_cursor_visual_def
  set_key_state_eq paint_modifier_eq RepeatState0_def SpaceTrackingState0_def
  demo_board_def QingBoard_init_def demo_rects_def
  key_defs MODIFIER_KEYS_def SHIFT_KEYS_def ModifierState0_def

lemmas mb_eval =
  Let_def mb_on_button_press_def mb_on_button_release_def mb_on_modifier_press_def
  mb_on_modifier_release_def mb_handle_shift_double_tap_def mb_force_release_modifier_eq
  mb_release_one_shot_modifiers_code emit_shortcut_def mark_used_in_combo_def
  mb_update_shift_labels_def mb_paint_pressed_def mb_start_repeat_def mb_cancel_repeat_def
  timeout_add_def source_remove_def tap_key_def
  set_key_state_eq mb_paint_modifier_eq RepeatState0_def
  demo_mutterboard_def MutterBoard_init_def
  key_defs MODIFIER_KEYS_def SHIFT_KEYS_def ModifierState0_def


section \<open>Cursor moves\<close>








section \<open>One motion sample of a steady horizontal drag\<close>





section \<open>A whole steady drag\<close>



section \<open>C1: pressing one side of a modifier pair\<close>

text \<open>
  C1, as amended. Only the Shift pair is exclusive. For the two Shift keys (A, B), in
  either order: pressing A leaves B with held, latched and combo-used all false and not
  down in the engine; the release of B is emitted when B was down, and it comes before
  the press of A (which is emitted when A was not already down). For every other
  modifier k (Ctrl, Alt, Super) pressing k leaves the state of every other modifier as
  it was and emits nothing but the press of k. Both window classes behave so.
\<close>

theorem shift_press_force_releases_opposite:
  "((A, B) = (KEY_LEFTSHIFT, KEY_RIGHTSHIFT) \<or> (A, B) = (KEY_RIGHTSHIFT, KEY_LEFTSHIFT) \<longrightarrow>
      modifiers (on_modifier_press_global s A) B = ModifierState0
      \<and> pressed (modifiers (on_modifier_press_global s A) A)
      \<and> B \<notin> down_keys (engine (on_modifier_press_global s A))
      \<and> emitted (engine (on_modifier_press_global s A)) =
           emitted (engine s) @ (if B \<in> down_keys (engine s) then [(B, 0)] else [])
             @ (if A \<in> down_keys (engine s) then [] else [(A, 1)])
      \<and> mb_modifiers (mb_on_modifier_press m A) B = ModifierState0
      \<and> pressed (mb_modifiers (mb_on_modifier_press m A) A)
      \<and> B \<notin> down_keys (mb_engine (mb_on_modifier_press m A))
      \<and> emitted (mb_engine (mb_on_modifier_press m A)) =
           emitted (mb_engine m) @ (if B \<in> down_keys (mb_engine m) then [(B, 0)] else [])
             @ (if A \<in> down_keys (mb_engine m) then [] else [(A, 1)]))
   \<and> (k \<notin> set SHIFT_KEYS \<and> k' \<noteq> k \<longrightarrow>
      modifiers (on_modifier_press_global s k) k' = modifiers s k'
      \<and> emitted (engine (on_modifier_press_global s k)) =
           emitted (engine s) @ (if k \<in> down_keys (engine s) then [] else [(k, 1)])
      \<and> mb_modifiers (mb_on_modifier_press m k) k' = mb_modifiers m k'
      \<and> emitted (mb_engine (mb_on_modifier_press m k)) =
           emitted (mb_engine m) @ (if k \<in> down_keys (mb_engine m) then [] else [(k, 1)]))"
proof (intro conjI impI)
  assume pair: "(A, B) = (KEY_LEFTSHIFT, KEY_RIGHTSHIFT) \<or> (A, B) = (KEY_RIGHTSHIFT, KEY_LEFTSHIFT)"
  note c = shift_pair_cases [OF pair]
  have a: "A \<in> set SHIFT_KEYS" and ab: "A \<noteq> B"
    and opp: "(if A = KEY_LEFTSHIFT then KEY_RIGHTSHIFT else KEY_LEFTSHIFT) = B"
    using c by simp_all
  show "modifiers (on_modifier_press_global s A) B = ModifierState0"
    by (rule press_global_shift(1) [OF a ab opp])
  show "pressed (modifiers (on_modifier_press_global s A) A)"
    by (rule press_global_shift(2) [OF a ab opp])
  show "B \<notin> down_keys (engine (on_modifier_press_global s A))"
    using ab by (simp add: press_global_shift(3) [OF a ab opp])
  show "emitted (engine (on_modifier_press_global s A)) =
           emitted (engine s) @ (if B \<in> down_keys (engine s) then [(B, 0)] else [])
             @ (if A \<in> down_keys (engine s) then [] else [(A, 1)])"
    by (rule press_global_shift(4) [OF a ab opp])
  show "mb_modifiers (mb_on_modifier_press m A) B = ModifierState0"
    by (rule mb_press_shift(1) [OF a ab opp])
  show "pressed (mb_modifiers (mb_on_modifier_press m A) A)"
    by (rule mb_press_shift(2) [OF a ab opp])
  show "B \<notin> down_keys (mb_engine (mb_on_modifier_press m A))"
    using ab by (simp add: mb_press_shift(3) [OF a ab opp])
  show "emitted (mb_engine (mb_on_modifier_press m A)) =
           emitted (mb_engine m) @ (if B \<in> down_keys (mb_engine m) then [(B, 0)] else [])
             @ (if A \<in> down_keys (mb_engine m) then [] else [(A, 1)])"
    by (rule mb_press_shift(4) [OF a ab opp])
next
  assume other: "k \<notin> set SHIFT_KEYS \<and> k' \<noteq> k"
  then have k: "k \<notin> set SHIFT_KEYS" and kk: "k' \<noteq> k" by simp_all
  show "modifiers (on_modifier_press_global s k) k' = modifiers s k'"
    by (rule press_global_other(1) [OF k kk])
  show "emitted (engine (on_modifier_press_global s k)) =
           emitted (engine s) @ (if k \<in> down_keys (engine s) then [] else [(k, 1)])"
    by (rule press_global_other(2) [OF k kk])
  show "mb_modifiers (mb_on_modifier_press m k) k' = mb_modifiers m k'"
    by (rule mb_press_other(1) [OF k kk])
  show "emitted (mb_engine (mb_on_modifier_press m k)) =
           emitted (mb_engine m) @ (if k \<in> down_keys (mb_engine m) then [] else [(k, 1)])"
    by (rule mb_press_other(2) [OF k kk])
qed

text \<open>
  The theorem at work: Right Shift is held and Left Shift is pressed; Right Ctrl is held
  and Left Ctrl is pressed.
\<close>

theorem shift_press_force_releases_opposite_witness:
  "(KEY_LEFTSHIFT, KEY_RIGHTSHIFT) = (KEY_LEFTSHIFT, KEY_RIGHTSHIFT)
   \<and> pressed (modifiers (on_modifier_press_global demo_board KEY_RIGHTSHIFT) KEY_RIGHTSHIFT)
   \<and> modifiers
       (on_modifier_press_global (on_modifier_press_global demo_board KEY_RIGHTSHIFT) KEY_LEFTSHIFT)
       KEY_RIGHTSHIFT = ModifierState0
   \<and> emitted (engine
       (on_modifier_press_global (on_modifier_press_global demo_board KEY_RIGHTSHIFT) KEY_LEFTSHIFT))
       = [(KEY_RIGHTSHIFT, 1), (KEY_RIGHTSHIFT, 0), (KEY_LEFTSHIFT, 1)]
   \<and> emitted (mb_engine
       (mb_on_modifier_press (mb_on_modifier_press demo_mutterboard KEY_RIGHTSHIFT) KEY_LEFTSHIFT))
       = [(KEY_RIGHTSHIFT, 1), (KEY_RIGHTSHIFT, 0), (KEY_LEFTSHIFT, 1)]
   \<and> KEY_LEFTCTRL \<notin> set SHIFT_KEYS \<and> KEY_RIGHTCTRL \<noteq> KEY_LEFTCTRL
   \<and> modifiers
       (on_modifier_press_global (on_modifier_press_global demo_board KEY_RIGHTSHIFT) KEY_LEFTCTRL)
       KEY_RIGHTCTRL
       = modifiers (on_modifier_press_global demo_board KEY_RIGHTSHIFT) KEY_RIGHTCTRL"
  using shift_press_force_releases_opposite
    [of KEY_LEFTSHIFT KEY_RIGHTSHIFT "on_modifier_press_global demo_board KEY_RIGHTSHIFT"
        "mb_on_modifier_press demo_mutterboard KEY_RIGHTSHIFT" KEY_LEFTCTRL KEY_RIGHTCTRL]
  by (simp add: on_modifier_press_global_def mb_on_modifier_press_def
      force_release_modifier_def mb_force_release_modifier_def Let_def
      set_key_state_eq paint_modifier_eq mb_paint_modifier_eq demo_simps)

text \<open>
  C1 as stated fails for the Ctrl pair: from the initial state, a touch point presses
  Right Ctrl and a second one presses Left Ctrl. Right Ctrl stays held, no release is
  emitted. The same happens with the buttons of MutterBoard.
\<close>

theorem ctrl_press_keeps_opposite_held:
  "pressed (modifiers (on_input_begin (on_input_begin demo_board 1 60 0 0 1) 2 40 0 0 2)
      KEY_RIGHTCTRL)
   \<and> pressed (modifiers (on_input_begin (on_input_begin demo_board 1 60 0 0 1) 2 40 0 0 2)
      KEY_LEFTCTRL)
   \<and> emitted (engine (on_input_begin (on_input_begin demo_board 1 60 0 0 1) 2 40 0 0 2))
       = [(KEY_RIGHTCTRL, 1), (KEY_LEFTCTRL, 1)]
   \<and> pressed (mb_modifiers
        (mb_on_button_press (mb_on_button_press demo_mutterboard KEY_RIGHTCTRL) KEY_LEFTCTRL)
        KEY_RIGHTCTRL)
   \<and> emitted (mb_engine
        (mb_on_button_press (mb_on_button_press demo_mutterboard KEY_RIGHTCTRL) KEY_LEFTCTRL))
       = [(KEY_RIGHTCTRL, 1), (KEY_LEFTCTRL, 1)]"
  by (simp add: Let_def on_input_begin_def on_modifier_press_touch_def
      on_modifier_press_global_def update_shift_labels_def mb_on_button_press_def
      mb_on_modifier_press_def mb_update_shift_labels_def mb_paint_pressed_def
      set_key_state_eq paint_modifier_eq mb_paint_modifier_eq demo_simps)


section \<open>C2: which releases of a Shift key reach the double-tap detector\<close>

text \<open>
  C2, as amended. A release of a Shift key whose combo-used flag is false runs the
  double-tap check (on the state with the latch toggled): the recorded tap time becomes 0
  when the double tap is due (or the shortcut is disabled) and the clock reading
  otherwise. A release whose combo-used flag is true returns before the check: the
  recorded tap time is unchanged and nothing is emitted but the release of the key
  itself (when it is not latched and is down). Both window classes behave so;
  MutterBoard has no switch to disable the shortcut.
\<close>

theorem shift_release_notifies_detector_unless_combo:
  "(k \<in> set SHIFT_KEYS \<and> \<not> used_in_combo (modifiers s k) \<longrightarrow>
      on_modifier_release_global s k now = handle_shift_double_tap (toggled s k) now
      \<and> last_shift_tap_at (on_modifier_release_global s k now) =
           (if double_tap_due s now then 0
            else if double_shift_shortcut_enabled s then now else 0))
   \<and> (used_in_combo (modifiers s k) \<longrightarrow>
      last_shift_tap_at (on_modifier_release_global s k now) = last_shift_tap_at s
      \<and> emitted (engine (on_modifier_release_global s k now)) =
           emitted (engine s)
             @ (if \<not> latched (modifiers s k) \<and> k \<in> down_keys (engine s) then [(k, 0)] else []))
   \<and> (k \<in> set SHIFT_KEYS \<and> \<not> used_in_combo (mb_modifiers m k) \<longrightarrow>
      mb_on_modifier_release m k now = mb_handle_shift_double_tap (mb_toggled m k) now
      \<and> mb_last_shift_tap_at (mb_on_modifier_release m k now) =
           (if mb_double_tap_due m now then 0 else now))
   \<and> (used_in_combo (mb_modifiers m k) \<longrightarrow>
      mb_last_shift_tap_at (mb_on_modifier_release m k now) = mb_last_shift_tap_at m
      \<and> emitted (mb_engine (mb_on_modifier_release m k now)) =
           emitted (mb_engine m)
             @ (if \<not> latched (mb_modifiers m k) \<and> k \<in> down_keys (mb_engine m)
                then [(k, 0)] else []))"
proof (intro conjI impI)
  assume h: "k \<in> set SHIFT_KEYS \<and> \<not> used_in_combo (modifiers s k)"
  then have k: "k \<in> set SHIFT_KEYS" and c: "\<not> used_in_combo (modifiers s k)" by simp_all
  show "on_modifier_release_global s k now = handle_shift_double_tap (toggled s k) now"
    by (rule release_clean_shift_tap_at(1) [OF k c])
  show "last_shift_tap_at (on_modifier_release_global s k now) =
           (if double_tap_due s now then 0
            else if double_shift_shortcut_enabled s then now else 0)"
    by (rule release_clean_shift_tap_at(2) [OF k c])
next
  assume c: "used_in_combo (modifiers s k)"
  show "last_shift_tap_at (on_modifier_release_global s k now) = last_shift_tap_at s"
    by (rule release_combo_tap_at(1) [OF c])
  show "emitted (engine (on_modifier_release_global s k now)) =
           emitted (engine s)
             @ (if \<not> latched (modifiers s k) \<and> k \<in> down_keys (engine s) then [(k, 0)] else [])"
    by (rule release_combo_tap_at(2) [OF c])
next
  assume h: "k \<in> set SHIFT_KEYS \<and> \<not> used_in_combo (mb_modifiers m k)"
  then have k: "k \<in> set SHIFT_KEYS" and c: "\<not> used_in_combo (mb_modifiers m k)" by simp_all
  show "mb_on_modifier_release m k now = mb_handle_shift_double_tap (mb_toggled m k) now"
    by (rule mb_release_clean_shift_tap_at(1) [OF k c])
  show "mb_last_shift_tap_at (mb_on_modifier_release m k now) =
           (if mb_double_tap_due m now then 0 else now)"
    by (rule mb_release_clean_shift_tap_at(2) [OF k c])
next
  assume c: "used_in_combo (mb_modifiers m k)"
  show "mb_last_shift_tap_at (mb_on_modifier_release m k now) = mb_last_shift_tap_at m"
    by (rule mb_release_combo_tap_at(1) [OF c])
  show "emitted (mb_engine (mb_on_modifier_release m k now)) =
           emitted (mb_engine m)
             @ (if \<not> latched (mb_modifiers m k) \<and> k \<in> down_keys (mb_engine m)
                then [(k, 0)] else [])"
    by (rule mb_release_combo_tap_at(2) [OF c])
qed

text \<open>
  The theorem at work: Left Shift is held alone and released at time 1 (the tap time
  becomes 1); Left Shift is held, another key has marked it as used in a combo, and it is
  released at time 1 (the tap time stays 0).
\<close>

theorem shift_release_notifies_detector_unless_combo_witness:
  "KEY_LEFTSHIFT \<in> set SHIFT_KEYS
   \<and> \<not> used_in_combo (modifiers (on_modifier_press_global demo_board KEY_LEFTSHIFT) KEY_LEFTSHIFT)
   \<and> last_shift_tap_at
       (on_modifier_release_global (on_modifier_press_global demo_board KEY_LEFTSHIFT)
          KEY_LEFTSHIFT 1) = 1
   \<and> \<not> used_in_combo
        (mb_modifiers (mb_on_modifier_press demo_mutterboard KEY_LEFTSHIFT) KEY_LEFTSHIFT)
   \<and> mb_last_shift_tap_at
       (mb_on_modifier_release (mb_on_modifier_press demo_mutterboard KEY_LEFTSHIFT)
          KEY_LEFTSHIFT 1) = 1
   \<and> used_in_combo
       (modifiers
          ((on_modifier_press_global demo_board KEY_LEFTSHIFT)
             \<lparr>modifiers :=
                mark_used_in_combo (modifiers (on_modifier_press_global demo_board KEY_LEFTSHIFT))\<rparr>)
          KEY_LEFTSHIFT)
   \<and> last_shift_tap_at
       (on_modifier_release_global
          ((on_modifier_press_global demo_board KEY_LEFTSHIFT)
             \<lparr>modifiers :=
                mark_used_in_combo (modifiers (on_modifier_press_global demo_board KEY_LEFTSHIFT))\<rparr>)
          KEY_LEFTSHIFT 1) = 0
   \<and> used_in_combo
       (mb_modifiers
          ((mb_on_modifier_press demo_mutterboard KEY_LEFTSHIFT)
             \<lparr>mb_modifiers :=
                mark_used_in_combo
                  (mb_modifiers (mb_on_modifier_press demo_mutterboard KEY_LEFTSHIFT))\<rparr>)
          KEY_LEFTSHIFT)
   \<and> mb_last_shift_tap_at
       (mb_on_modifier_release
          ((mb_on_modifier_press demo_mutterboard KEY_LEFTSHIFT)
             \<lparr>mb_modifiers :=
                mark_used_in_combo
                  (mb_modifiers (mb_on_modifier_press demo_mutterboard KEY_LEFTSHIFT))\<rparr>)
          KEY_LEFTSHIFT 1) = 0"
proof -
  have a: "KEY_LEFTSHIFT \<in> set SHIFT_KEYS" by (simp add: SHIFT_KEYS_def)
  have b: "\<not> used_in_combo (modifiers (on_modifier_press_global demo_board KEY_LEFTSHIFT) KEY_LEFTSHIFT)"
    by (simp add: press_own_state)
  have b': "\<not> used_in_combo
        (mb_modifiers (mb_on_modifier_press demo_mutterboard KEY_LEFTSHIFT) KEY_LEFTSHIFT)"
    by (simp add: mb_press_own_state)
  have c: "used_in_combo
       (modifiers
          ((on_modifier_press_global demo_board KEY_LEFTSHIFT)
             \<lparr>modifiers :=
                mark_used_in_combo (modifiers (on_modifier_press_global demo_board KEY_LEFTSHIFT))\<rparr>)
          KEY_LEFTSHIFT)"
    by (simp add: mark_used_in_combo_def press_own_state MODIFIER_KEYS_def)
  have c': "used_in_combo
       (mb_modifiers
          ((mb_on_modifier_press demo_mutterboard KEY_LEFTSHIFT)
             \<lparr>mb_modifiers :=
                mark_used_in_combo
                  (mb_modifiers (mb_on_modifier_press demo_mutterboard KEY_LEFTSHIFT))\<rparr>)
          KEY_LEFTSHIFT)"
    by (simp add: mark_used_in_combo_def mb_press_own_state MODIFIER_KEYS_def)
  have nd: "\<not> double_tap_due (on_modifier_press_global demo_board KEY_LEFTSHIFT) 1"
    unfolding due_press by (simp add: double_tap_due_def demo_board_def QingBoard_init_def)
  have nd': "\<not> mb_double_tap_due (mb_on_modifier_press demo_mutterboard KEY_LEFTSHIFT) 1"
    unfolding mb_due_press
    by (simp add: mb_double_tap_due_def demo_mutterboard_def MutterBoard_init_def)
  have en: "double_shift_shortcut_enabled (on_modifier_press_global demo_board KEY_LEFTSHIFT)"
    by (simp add: on_modifier_press_global_def Let_def force_release_modifier_eq paint_modifier_eq
        demo_board_def QingBoard_init_def)
  have l0: "last_shift_tap_at
       ((on_modifier_press_global demo_board KEY_LEFTSHIFT)
             \<lparr>modifiers :=
                mark_used_in_combo (modifiers (on_modifier_press_global demo_board KEY_LEFTSHIFT))\<rparr>)
       = 0"
    by (simp add: on_modifier_press_global_def Let_def force_release_modifier_eq paint_modifier_eq
        demo_board_def QingBoard_init_def)
  have l0': "mb_last_shift_tap_at
       ((mb_on_modifier_press demo_mutterboard KEY_LEFTSHIFT)
             \<lparr>mb_modifiers :=
                mark_used_in_combo
                  (mb_modifiers (mb_on_modifier_press demo_mutterboard KEY_LEFTSHIFT))\<rparr>)
       = 0"
    by (simp add: mb_on_modifier_press_def Let_def mb_force_release_modifier_eq
        mb_paint_modifier_eq demo_mutterboard_def MutterBoard_init_def)
  note i1 = shift_release_notifies_detector_unless_combo
      [of KEY_LEFTSHIFT "on_modifier_press_global demo_board KEY_LEFTSHIFT" 1
          "mb_on_modifier_press demo_mutterboard KEY_LEFTSHIFT"]
  note i2 = shift_release_notifies_detector_unless_combo
      [of KEY_LEFTSHIFT
          "(on_modifier_press_global demo_board KEY_LEFTSHIFT)
             \<lparr>modifiers :=
                mark_used_in_combo (modifiers (on_modifier_press_global demo_board KEY_LEFTSHIFT))\<rparr>"
          1
          "(mb_on_modifier_press demo_mutterboard KEY_LEFTSHIFT)
             \<lparr>mb_modifiers :=
                mark_used_in_combo
                  (mb_modifiers (mb_on_modifier_press demo_mutterboard KEY_LEFTSHIFT))\<rparr>"]
  have r1: "last_shift_tap_at
       (on_modifier_release_global (on_modifier_press_global demo_board KEY_LEFTSHIFT)
          KEY_LEFTSHIFT 1) = 1"
    using i1 [THEN conjunct1, THEN mp, OF conjI [OF a b], THEN conjunct2] nd en by simp
  have r2: "mb_last_shift_tap_at
       (mb_on_modifier_release (mb_on_modifier_press demo_mutterboard KEY_LEFTSHIFT)
          KEY_LEFTSHIFT 1) = 1"
    using i1 [THEN conjunct2, THEN conjunct2, THEN conjunct1, THEN mp, OF conjI [OF a b'],
        THEN conjunct2] nd' by simp
  have r3: "last_shift_tap_at
       (on_modifier_release_global
          ((on_modifier_press_global demo_board KEY_LEFTSHIFT)
             \<lparr>modifiers :=
                mark_used_in_combo (modifiers (on_modifier_press_global demo_board KEY_LEFTSHIFT))\<rparr>)
          KEY_LEFTSHIFT 1) = 0"
    using i2 [THEN conjunct2, THEN conjunct1, THEN mp, OF c, THEN conjunct1] l0 by simp
  have r4: "mb_last_shift_tap_at
       (mb_on_modifier_release
          ((mb_on_modifier_press demo_mutterboard KEY_LEFTSHIFT)
             \<lparr>mb_modifiers :=
                mark_used_in_combo
                  (mb_modifiers (mb_on_modifier_press demo_mutterboard KEY_LEFTSHIFT))\<rparr>)
          KEY_LEFTSHIFT 1) = 0"
    using i2 [THEN conjunct2, THEN conjunct2, THEN conjunct2, THEN mp, OF c', THEN conjunct1] l0'
    by simp
  show ?thesis
    by (intro conjI a b b' c c' r1 r2 r3 r4)
qed

text \<open>
  C2 as stated fails. Left Shift is tapped at time 1 (it latches, the tap time is 1),
  pressed again at 1.05, the key A is pressed by a second touch point at 1.06, and Left
  Shift is released at 1.1. The double tap would be due (0.1 s after the recorded tap),
  but the release is a combo release: the tap time is still 1, neither updated nor
  consumed, and no shortcut is emitted. The buttons of MutterBoard give the same.
\<close>

theorem combo_release_skips_detector:
  "double_tap_due
     (on_input_begin
        (on_input_begin (on_input_end (on_input_begin demo_board 1 0 0 0 1) 1 0 1)
           1 0 0 0 (21 / 20))
        2 80 0 0 (53 / 50))
     (11 / 10)
   \<and> last_shift_tap_at
       (on_input_begin
          (on_input_begin (on_input_end (on_input_begin demo_board 1 0 0 0 1) 1 0 1)
             1 0 0 0 (21 / 20))
          2 80 0 0 (53 / 50)) = 1
   \<and> last_shift_tap_at
       (on_input_end
          (on_input_begin
             (on_input_begin (on_input_end (on_input_begin demo_board 1 0 0 0 1) 1 0 1)
                1 0 0 0 (21 / 20))
             2 80 0 0 (53 / 50))
          1 0 (11 / 10)) = 1
   \<and> emitted (engine
       (on_input_end
          (on_input_begin
             (on_input_begin (on_input_end (on_input_begin demo_board 1 0 0 0 1) 1 0 1)
                1 0 0 0 (21 / 20))
             2 80 0 0 (53 / 50))
          1 0 (11 / 10)))
       = [(KEY_LEFTSHIFT, 1), (KEY_A, 1), (KEY_A, 0)]
   \<and> mb_last_shift_tap_at
       (mb_on_button_release
          (mb_on_button_press
             (mb_on_button_press
                (mb_on_button_release (mb_on_button_press demo_mutterboard KEY_LEFTSHIFT)
                   KEY_LEFTSHIFT 1)
                KEY_LEFTSHIFT)
             KEY_A)
          KEY_LEFTSHIFT (11 / 10)) = 1
   \<and> emitted (mb_engine
       (mb_on_button_release
          (mb_on_button_press
             (mb_on_button_press
                (mb_on_button_release (mb_on_button_press demo_mutterboard KEY_LEFTSHIFT)
                   KEY_LEFTSHIFT 1)
                KEY_LEFTSHIFT)
             KEY_A)
          KEY_LEFTSHIFT (11 / 10)))
       = [(KEY_LEFTSHIFT, 1), (KEY_A, 1)]"
  by (simp add: double_tap_due_def qb_eval mb_eval)


section \<open>C3: the second tap of a double tap\<close>






section \<open>C4: a tap of a modifier with nothing in between\<close>

lemma two_taps_qb:
  assumes "k \<notin> set SHIFT_KEYS
           \<or> (\<not> double_tap_due s now \<and> \<not> double_tap_due (modifier_tap s k now) now2)"
  shows "\<not> pressed (modifiers (modifier_tap (modifier_tap s k now) k now2) k)"
    and "latched (modifiers (modifier_tap (modifier_tap s k now) k now2) k)
           = latched (modifiers s k)"
proof -
  have a1: "k \<notin> set SHIFT_KEYS \<or> \<not> double_tap_due s now" using assms by blast
  have a2: "k \<notin> set SHIFT_KEYS \<or> \<not> double_tap_due (modifier_tap s k now) now2"
    using assms by blast
  show "\<not> pressed (modifiers (modifier_tap (modifier_tap s k now) k now2) k)"
    by (rule tap_toggles(1) [OF a2])
  show "latched (modifiers (modifier_tap (modifier_tap s k now) k now2) k)
           = latched (modifiers s k)"
    unfolding tap_toggles(2) [OF a2] tap_toggles(2) [OF a1] by simp
qed

lemma two_taps_mb:
  assumes "k \<notin> set SHIFT_KEYS
           \<or> (\<not> mb_double_tap_due m now \<and> \<not> mb_double_tap_due (mb_modifier_tap m k now) now2)"
  shows "\<not> pressed (mb_modifiers (mb_modifier_tap (mb_modifier_tap m k now) k now2) k)"
    and "latched (mb_modifiers (mb_modifier_tap (mb_modifier_tap m k now) k now2) k)
           = latched (mb_modifiers m k)"
proof -
  have a1: "k \<notin> set SHIFT_KEYS \<or> \<not> mb_double_tap_due m now" using assms by blast
  have a2: "k \<notin> set SHIFT_KEYS \<or> \<not> mb_double_tap_due (mb_modifier_tap m k now) now2"
    using assms by blast
  show "\<not> pressed (mb_modifiers (mb_modifier_tap (mb_modifier_tap m k now) k now2) k)"
    by (rule mb_tap_toggles(1) [OF a2])
  show "latched (mb_modifiers (mb_modifier_tap (mb_modifier_tap m k now) k now2) k)
           = latched (mb_modifiers m k)"
    unfolding mb_tap_toggles(2) [OF a2] mb_tap_toggles(2) [OF a1] by simp
qed

text \<open>
  C4, as amended. A tap of a modifier k is its press followed by its release with no
  other key pressed in between. If k is not a Shift key, or k is a Shift key and the
  double tap is not due at the release, the tap leaves k not held and its latch flipped;
  two such taps restore the latch. If k is a Shift key and the double tap is due at the
  release, the release force-releases both Shift keys: k ends not held and not latched,
  whatever its latch was before. Both window classes behave so.
\<close>

theorem clean_tap_toggles_latch:
  "(k \<notin> set SHIFT_KEYS \<or> \<not> double_tap_due s now \<longrightarrow>
      \<not> pressed (modifiers (modifier_tap s k now) k)
      \<and> latched (modifiers (modifier_tap s k now) k) = (\<not> latched (modifiers s k)))
   \<and> (k \<notin> set SHIFT_KEYS
       \<or> (\<not> double_tap_due s now \<and> \<not> double_tap_due (modifier_tap s k now) now2) \<longrightarrow>
      \<not> pressed (modifiers (modifier_tap (modifier_tap s k now) k now2) k)
      \<and> latched (modifiers (modifier_tap (modifier_tap s k now) k now2) k)
          = latched (modifiers s k))
   \<and> (k \<in> set SHIFT_KEYS \<and> double_tap_due s now \<longrightarrow>
      modifiers (modifier_tap s k now) KEY_LEFTSHIFT = ModifierState0
      \<and> modifiers (modifier_tap s k now) KEY_RIGHTSHIFT = ModifierState0)
   \<and> (k \<notin> set SHIFT_KEYS \<or> \<not> mb_double_tap_due m now \<longrightarrow>
      \<not> pressed (mb_modifiers (mb_modifier_tap m k now) k)
      \<and> latched (mb_modifiers (mb_modifier_tap m k now) k) = (\<not> latched (mb_modifiers m k)))
   \<and> (k \<notin> set SHIFT_KEYS
       \<or> (\<not> mb_double_tap_due m now \<and> \<not> mb_double_tap_due (mb_modifier_tap m k now) now2) \<longrightarrow>
      \<not> pressed (mb_modifiers (mb_modifier_tap (mb_modifier_tap m k now) k now2) k)
      \<and> latched (mb_modifiers (mb_modifier_tap (mb_modifier_tap m k now) k now2) k)
          = latched (mb_modifiers m k))
   \<and> (k \<in> set SHIFT_KEYS \<and> mb_double_tap_due m now \<longrightarrow>
      mb_modifiers (mb_modifier_tap m k now) KEY_LEFTSHIFT = ModifierState0
      \<and> mb_modifiers (mb_modifier_tap m k now) KEY_RIGHTSHIFT = ModifierState0)"
proof (intro conjI impI)
  assume a: "k \<notin> set SHIFT_KEYS \<or> \<not> double_tap_due s now"
  show "\<not> pressed (modifiers (modifier_tap s k now) k)"
    by (rule tap_toggles(1) [OF a])
  show "latched (modifiers (modifier_tap s k now) k) = (\<not> latched (modifiers s k))"
    by (rule tap_toggles(2) [OF a])
next
  assume a: "k \<notin> set SHIFT_KEYS
       \<or> (\<not> double_tap_due s now \<and> \<not> double_tap_due (modifier_tap s k now) now2)"
  show "\<not> pressed (modifiers (modifier_tap (modifier_tap s k now) k now2) k)"
    by (rule two_taps_qb(1) [OF a])
  show "latched (modifiers (modifier_tap (modifier_tap s k now) k now2) k)
          = latched (modifiers s k)"
    by (rule two_taps_qb(2) [OF a])
next
  assume a: "k \<in> set SHIFT_KEYS \<and> double_tap_due s now"
  show "modifiers (modifier_tap s k now) KEY_LEFTSHIFT = ModifierState0"
    using a by (intro tap_due_clears(1)) simp_all
  show "modifiers (modifier_tap s k now) KEY_RIGHTSHIFT = ModifierState0"
    using a by (intro tap_due_clears(2)) simp_all
next
  assume a: "k \<notin> set SHIFT_KEYS \<or> \<not> mb_double_tap_due m now"
  show "\<not> pressed (mb_modifiers (mb_modifier_tap m k now) k)"
    by (rule mb_tap_toggles(1) [OF a])
  show "latched (mb_modifiers (mb_modifier_tap m k now) k) = (\<not> latched (mb_modifiers m k))"
    by (rule mb_tap_toggles(2) [OF a])
next
  assume a: "k \<notin> set SHIFT_KEYS
       \<or> (\<not> mb_double_tap_due m now \<and> \<not> mb_double_tap_due (mb_modifier_tap m k now) now2)"
  show "\<not> pressed (mb_modifiers (mb_modifier_tap (mb_modifier_tap m k now) k now2) k)"
    by (rule two_taps_mb(1) [OF a])
  show "latched (mb_modifiers (mb_modifier_tap (mb_modifier_tap m k now) k now2) k)
          = latched (mb_modifiers m k)"
    by (rule two_taps_mb(2) [OF a])
next
  assume a: "k \<in> set SHIFT_KEYS \<and> mb_double_tap_due m now"
  show "mb_modifiers (mb_modifier_tap m k now) KEY_LEFTSHIFT = ModifierState0"
    using a by (intro mb_tap_due_clears(1)) simp_all
  show "mb_modifiers (mb_modifier_tap m k now) KEY_RIGHTSHIFT = ModifierState0"
    using a by (intro mb_tap_due_clears(2)) simp_all
qed

text \<open>
  The theorem at work, from the initial state: two taps of Left Ctrl (latched after the
  first, not latched after the second); a tap of Left Shift at time 1 (latched) and a
  second one at time 2, outside the double-tap window (not latched again); a tap of
  Right Shift at 1.1 after a tap of Left Shift at 1, inside the window (both cleared).
\<close>

theorem clean_tap_toggles_latch_witness:
  "KEY_LEFTCTRL \<notin> set SHIFT_KEYS
   \<and> latched (modifiers (modifier_tap demo_board KEY_LEFTCTRL 1) KEY_LEFTCTRL)
   \<and> \<not> latched (modifiers (modifier_tap (modifier_tap demo_board KEY_LEFTCTRL 1) KEY_LEFTCTRL 2)
          KEY_LEFTCTRL)
   \<and> \<not> double_tap_due demo_board 1
   \<and> \<not> double_tap_due (modifier_tap demo_board KEY_LEFTSHIFT 1) 2
   \<and> latched (modifiers (modifier_tap demo_board KEY_LEFTSHIFT 1) KEY_LEFTSHIFT)
   \<and> \<not> latched (modifiers (modifier_tap (modifier_tap demo_board KEY_LEFTSHIFT 1) KEY_LEFTSHIFT 2)
          KEY_LEFTSHIFT)
   \<and> KEY_RIGHTSHIFT \<in> set SHIFT_KEYS
   \<and> double_tap_due (modifier_tap demo_board KEY_LEFTSHIFT 1) (11 / 10)
   \<and> modifiers (modifier_tap (modifier_tap demo_board KEY_LEFTSHIFT 1) KEY_RIGHTSHIFT (11 / 10))
        KEY_RIGHTSHIFT = ModifierState0
   \<and> latched (mb_modifiers (mb_modifier_tap demo_mutterboard KEY_LEFTCTRL 1) KEY_LEFTCTRL)
   \<and> \<not> latched
        (mb_modifiers (mb_modifier_tap (mb_modifier_tap demo_mutterboard KEY_LEFTCTRL 1) KEY_LEFTCTRL 2)
          KEY_LEFTCTRL)
   \<and> mb_double_tap_due (mb_modifier_tap demo_mutterboard KEY_LEFTSHIFT 1) (11 / 10)
   \<and> mb_modifiers
        (mb_modifier_tap (mb_modifier_tap demo_mutterboard KEY_LEFTSHIFT 1) KEY_RIGHTSHIFT (11 / 10))
        KEY_RIGHTSHIFT = ModifierState0"
proof -
  have c: "KEY_LEFTCTRL \<notin> set SHIFT_KEYS" by (simp add: SHIFT_KEYS_def key_defs)
  have r: "KEY_RIGHTSHIFT \<in> set SHIFT_KEYS" by (simp add: SHIFT_KEYS_def)
  have l0: "\<not> latched (modifiers demo_board KEY_LEFTCTRL)"
    "\<not> latched (modifiers demo_board KEY_LEFTSHIFT)"
    "\<not> latched (mb_modifiers demo_mutterboard KEY_LEFTCTRL)"
    by (simp_all add: demo_simps)
  have nd1: "\<not> double_tap_due demo_board 1"
    by (simp add: double_tap_due_def demo_board_def QingBoard_init_def)
  have nd2: "\<not> double_tap_due (modifier_tap demo_board KEY_LEFTSHIFT 1) 2"
    by (simp add: double_tap_due_def modifier_tap_def qb_eval)
  have d3: "double_tap_due (modifier_tap demo_board KEY_LEFTSHIFT 1) (11 / 10)"
    by (simp add: double_tap_due_def modifier_tap_def qb_eval)
  have d3': "mb_double_tap_due (mb_modifier_tap demo_mutterboard KEY_LEFTSHIFT 1) (11 / 10)"
    by (simp add: mb_double_tap_due_def mb_modifier_tap_def mb_eval)
  note t1 = clean_tap_toggles_latch [of KEY_LEFTCTRL demo_board 1 2 demo_mutterboard]
  note t2 = clean_tap_toggles_latch [of KEY_LEFTSHIFT demo_board 1 2 demo_mutterboard]
  note t3 = clean_tap_toggles_latch
    [of KEY_RIGHTSHIFT "modifier_tap demo_board KEY_LEFTSHIFT 1" "11 / 10" 2
        "mb_modifier_tap demo_mutterboard KEY_LEFTSHIFT 1"]
  have r1: "latched (modifiers (modifier_tap demo_board KEY_LEFTCTRL 1) KEY_LEFTCTRL)"
    using t1 c l0 by blast
  have r2: "\<not> latched
      (modifiers (modifier_tap (modifier_tap demo_board KEY_LEFTCTRL 1) KEY_LEFTCTRL 2) KEY_LEFTCTRL)"
    using t1 c l0 by blast
  have r3: "latched (modifiers (modifier_tap demo_board KEY_LEFTSHIFT 1) KEY_LEFTSHIFT)"
    using t2 nd1 l0 by blast
  have r4: "\<not> latched
      (modifiers (modifier_tap (modifier_tap demo_board KEY_LEFTSHIFT 1) KEY_LEFTSHIFT 2)
         KEY_LEFTSHIFT)"
    using t2 nd1 nd2 l0 by blast
  have r5: "modifiers (modifier_tap (modifier_tap demo_board KEY_LEFTSHIFT 1) KEY_RIGHTSHIFT (11 / 10))
        KEY_RIGHTSHIFT = ModifierState0"
    using t3 r d3 by blast
  have r6: "latched (mb_modifiers (mb_modifier_tap demo_mutterboard KEY_LEFTCTRL 1) KEY_LEFTCTRL)"
    using t1 c l0 by blast
  have r7: "\<not> latched
        (mb_modifiers (mb_modifier_tap (mb_modifier_tap demo_mutterboard KEY_LEFTCTRL 1) KEY_LEFTCTRL 2)
          KEY_LEFTCTRL)"
    using t1 c l0 by blast
  have r8: "mb_modifiers
        (mb_modifier_tap (mb_modifier_tap demo_mutterboard KEY_LEFTSHIFT 1) KEY_RIGHTSHIFT (11 / 10))
        KEY_RIGHTSHIFT = ModifierState0"
    using t3 r d3' by blast
  show ?thesis
    by (intro conjI c r nd1 nd2 d3 d3' r1 r2 r3 r4 r5 r6 r7 r8)
qed

text \<open>
  C4 as stated fails for a Shift key whose release completes a double tap. Left Shift is
  tapped at time 1 by a touch point; Right Shift is pressed at 1.05 and released at 1.1
  with nothing in between. Right Shift was not latched before its tap and is not latched
  after it: the latch did not flip. The buttons of MutterBoard give the same.
\<close>

theorem double_tap_release_does_not_flip_latch:
  "\<not> latched (modifiers (on_input_end (on_input_begin demo_board 1 0 0 0 1) 1 0 1) KEY_RIGHTSHIFT)
   \<and> \<not> latched
        (modifiers
           (on_input_end
              (on_input_begin (on_input_end (on_input_begin demo_board 1 0 0 0 1) 1 0 1)
                 1 20 0 0 (21 / 20))
              1 0 (11 / 10))
           KEY_RIGHTSHIFT)
   \<and> \<not> latched
        (modifiers (modifier_tap (modifier_tap demo_board KEY_LEFTSHIFT 1) KEY_RIGHTSHIFT (11 / 10))
           KEY_RIGHTSHIFT)
   \<and> \<not> latched
        (mb_modifiers
           (mb_on_button_release (mb_on_button_press demo_mutterboard KEY_LEFTSHIFT) KEY_LEFTSHIFT 1)
           KEY_RIGHTSHIFT)
   \<and> \<not> latched
        (mb_modifiers
           (mb_on_button_release
              (mb_on_button_press
                 (mb_on_button_release (mb_on_button_press demo_mutterboard KEY_LEFTSHIFT)
                    KEY_LEFTSHIFT 1)
                 KEY_RIGHTSHIFT)
              KEY_RIGHTSHIFT (11 / 10))
           KEY_RIGHTSHIFT)"
  by (simp add: modifier_tap_def qb_eval mb_eval)


section \<open>C5: one-shot modifiers after a key cycle\<close>






section \<open>C6: the reference count of a regular key held by two touch points\<close>





section \<open>C7: the end of a touch point on Space\<close>

text \<open>
  C7 does not hold on the source, in two ways. \<open>_finish_space_tracking\<close> pops the tracking
  record before it calls \<open>_cancel_space_long_press\<close>, which looks the record up again and
  finds nothing: the long-press timeout is never removed. And \<open>_set_space_cursor_visual\<close>
  is only ever called with True: nothing removes the cursor-mode style.

  First run, on the example layout. Touch point 1 presses Space and releases it before
  the timeout (source 1) fires: one tap of Space is emitted, but source 1 is still
  scheduled. The same touch point presses Space again (source 2 is scheduled) and the
  stale source 1 fires: the new press enters cursor mode although its own timeout has
  not fired, and its release emits no tap.

  Second run. Touch point 1 presses Space, its timeout fires (cursor mode), and the touch
  point ends: no tap is emitted, and the cursor-mode style is still set.
\<close>

theorem space_long_press_timer_survives_release:
  "emitted (engine (on_input_end (on_input_begin demo_board 1 120 0 0 1) 1 100 (11 / 10)))
     = [(KEY_SPACE, 1), (KEY_SPACE, 0)]
   \<and> sources (glib (on_input_end (on_input_begin demo_board 1 120 0 0 1) 1 100 (11 / 10)))
     = [(1, 300, Enter_space_cursor_mode 1)]
   \<and> sources (glib
        (on_input_begin (on_input_end (on_input_begin demo_board 1 120 0 0 1) 1 100 (11 / 10))
           1 120 0 200 (6 / 5)))
     = [(1, 300, Enter_space_cursor_mode 1), (2, 300, Enter_space_cursor_mode 1)]
   \<and> map_of (space_tracking
        (fire_source
           (on_input_begin (on_input_end (on_input_begin demo_board 1 120 0 0 1) 1 100 (11 / 10))
              1 120 0 200 (6 / 5))
           1)) 1
     = Some (SpaceTrackingState0\<lparr>cursor_mode := True, long_press_source := Some 2\<rparr>)
   \<and> sources (glib
        (fire_source
           (on_input_begin (on_input_end (on_input_begin demo_board 1 120 0 0 1) 1 100 (11 / 10))
              1 120 0 200 (6 / 5))
           1))
     = [(2, 300, Enter_space_cursor_mode 1)]
   \<and> emitted (engine
        (on_input_end
           (fire_source
              (on_input_begin (on_input_end (on_input_begin demo_board 1 120 0 0 1) 1 100 (11 / 10))
                 1 120 0 200 (6 / 5))
              1)
           1 350 (27 / 20)))
     = [(KEY_SPACE, 1), (KEY_SPACE, 0)]
   \<and> cursor_mode_class (fire_source (on_input_begin demo_board 1 120 0 0 1) 1)
   \<and> emitted (engine
        (on_input_end (fire_source (on_input_begin demo_board 1 120 0 0 1) 1) 1 400 (7 / 5)))
     = []
   \<and> cursor_mode_class
        (on_input_end (fire_source (on_input_begin demo_board 1 120 0 0 1) 1) 1 400 (7 / 5))"
  by (simp add: fire_source_def run_callback_def enter_space_cursor_mode_def qb_eval)


section \<open>Cursor mode: taps along the dominant axis\<close>











section \<open>The step threshold of a motion sample\<close>

text \<open>
  C10. For every motion sample (any displacement, any elapsed time, clamped below at
  0.001 s) the step threshold lies in [12, 28]; the clamp \<open>max(8.0, ...)\<close> never binds:
  the threshold is always the second argument of that \<open>max\<close>. The value 12 is reached (a
  1920 pixel move in one second).
\<close>

theorem step_threshold_bounds:
  "12 \<le> step_threshold_of dx dy elapsed \<and> step_threshold_of dx dy elapsed \<le> 28
   \<and> step_threshold_of dx dy elapsed
       = 28 - min (sqrt (dx * dx + dy * dy) / max elapsed 0.001 / 120) 16
   \<and> step_threshold_of 1920 0 1 = 12"
proof -
  have nn: "0 \<le> sqrt (dx * dx + dy * dy) / max elapsed 0.001 / 120"
    using speed_nonneg [of dx dy elapsed] by simp
  have low: "step_threshold_of 1920 0 1 = 12"
    unfolding step_threshold_of_eq by simp
  show ?thesis
    unfolding step_threshold_of_eq using nn low [unfolded step_threshold_of_eq]
    by (simp add: min_def)
qed

end
